theory Spec2Isabelle
  imports
    Main
    "HOL-Library.AList"
    "HOL-Library.Char_ord"
    "HOL-Library.List_Lexorder"
    "HOL-Library.Product_Lexorder"
    "HOL-Library.Sublist"
begin

section \<open>Wheels support: a shallow embedding of \<^verbatim>\<open>setuptools/wheel.py\<close>\<close>

text \<open>
  Python strings are \<open>string\<close> (lists of characters), a raised exception is the \<open>Inl\<close>
  side of a sum, and the file system the module works on is an explicit tree that every
  \<^verbatim>\<open>os\<close> call takes and returns.
\<close>

subsection \<open>Exceptions\<close>

text \<open>
  The exceptions the module raises or lets through. The three \<^verbatim>\<open>ValueError\<close>s of the
  module are told apart by what they report: the file name, nothing, and the text of the
  version field. An \<^verbatim>\<open>OSError\<close> carries its error number.
\<close>

datatype errno = EEXIST | ENOENT | ENOTDIR | EISDIR | ENOTEMPTY | EINVAL | EBUSY

datatype error =
    InvalidWheelName string
  | DistInfoNotFound
  | UnsupportedWheelVersion string
  | KeyError string
  | TypeError
  | AssertionError
  | OSError errno

subsection \<open>Strings\<close>

text \<open>\<^verbatim>\<open>s.split(sep)\<close> for a one-character separator: never an empty list.\<close>

fun split_on :: "char \<Rightarrow> string \<Rightarrow> string list" where
  "split_on c [] = [[]]"
| "split_on c (x # xs) =
     (if x = c then [] # split_on c xs
      else (let r = split_on c xs in (x # hd r) # tl r))"

definition startswith :: "string \<Rightarrow> string \<Rightarrow> bool" where
  "startswith s p = prefix p s"

definition endswith :: "string \<Rightarrow> string \<Rightarrow> bool" where
  "endswith s p = suffix p s"

definition newline :: char where
  "newline = CHR 0x0A"

definition is_digit :: "char \<Rightarrow> bool" where
  "is_digit c = (c \<in> set ''0123456789'')"

text \<open>
  \<^verbatim>\<open>posixpath.basename\<close>: everything after the last slash.
  \<^verbatim>\<open>i = p.rfind('/') + 1; return p[i:]\<close>
\<close>

definition basename :: "string \<Rightarrow> string" where
  "basename p = rev (takeWhile (\<lambda>c. c \<noteq> CHR ''/'') (rev p))"

text \<open>
  \<^verbatim>\<open>posixpath.dirname\<close>: the part up to and including the last slash, with its trailing
  slashes removed unless it consists of slashes only.
\<close>

definition dirname :: "string \<Rightarrow> string" where
  "dirname p =
     (let head = rev (dropWhile (\<lambda>c. c \<noteq> CHR ''/'') (rev p)) in
      if head \<noteq> [] \<and> \<not> (\<forall>c \<in> set head. c = CHR ''/'')
      then rev (dropWhile (\<lambda>c. c = CHR ''/'') (rev head))
      else head)"

subsection \<open>The file name pattern \<^verbatim>\<open>WHEEL_NAME\<close>\<close>

text \<open>
  The pattern is
  \<^verbatim>\<open>^(?P<project_name>.+?)-(?P<version>\d.*?)((-(?P<build>\d.*?))?-(?P<py_version>.+?)-(?P<abi>.+?)-(?P<platform>.+?))\.whl$\<close>
  and it is run by the backtracking matcher of \<^verbatim>\<open>re\<close>: every lazy group tries its
  shortest extent first, the optional build group is tried before it is skipped, and the
  first complete match in that order is the result. A dot matches every character but the
  line feed, and \<^verbatim>\<open>$\<close> matches at the end of the string and also just before a line
  feed that ends it. The characters of the model are bytes, and a digit is one of
  \<^verbatim>\<open>0\<close> to \<^verbatim>\<open>9\<close>.

  The candidates of a lazy group are listed shortest first, each with the rest of the
  input; \<open>first_match\<close> takes the first candidate whose continuation succeeds.
\<close>

fun lazy_any :: "string \<Rightarrow> (string \<times> string) list" where
  "lazy_any [] = [([], [])]"
| "lazy_any (c # cs) =
     ([], c # cs) #
     (if c = newline then [] else map (\<lambda>(p, r). (c # p, r)) (lazy_any cs))"

text \<open>\<^verbatim>\<open>.+?\<close>\<close>

fun lazy_some :: "string \<Rightarrow> (string \<times> string) list" where
  "lazy_some [] = []"
| "lazy_some (c # cs) =
     (if c = newline then [] else map (\<lambda>(p, r). (c # p, r)) (lazy_any cs))"

text \<open>\<^verbatim>\<open>\d.*?\<close>\<close>

fun digit_then_any :: "string \<Rightarrow> (string \<times> string) list" where
  "digit_then_any [] = []"
| "digit_then_any (c # cs) =
     (if is_digit c then map (\<lambda>(p, r). (c # p, r)) (lazy_any cs) else [])"

fun first_match :: "('a \<Rightarrow> 'b option) \<Rightarrow> 'a list \<Rightarrow> 'b option" where
  "first_match f [] = None"
| "first_match f (x # xs) = (case f x of Some y \<Rightarrow> Some y | None \<Rightarrow> first_match f xs)"

text \<open>A literal character of the pattern.\<close>

fun lit :: "char \<Rightarrow> string \<Rightarrow> string option" where
  "lit c [] = None"
| "lit c (x # xs) = (if x = c then Some xs else None)"

text \<open>\<^verbatim>\<open>\.whl$\<close>\<close>

definition whl_end :: "string \<Rightarrow> bool" where
  "whl_end r = (r = ''.whl'' \<or> r = ''.whl'' @ [newline])"

text \<open>\<^verbatim>\<open>-(?P<py_version>.+?)-(?P<abi>.+?)-(?P<platform>.+?)\.whl$\<close>\<close>

definition match_tags :: "string \<Rightarrow> (string \<times> string \<times> string) option" where
  "match_tags r0 =
     (case lit CHR ''-'' r0 of None \<Rightarrow> None | Some r1 \<Rightarrow>
      first_match (\<lambda>(py, r2).
        case lit CHR ''-'' r2 of None \<Rightarrow> None | Some r3 \<Rightarrow>
        first_match (\<lambda>(ab, r4).
          case lit CHR ''-'' r4 of None \<Rightarrow> None | Some r5 \<Rightarrow>
          first_match (\<lambda>(pl, r6). if whl_end r6 then Some (py, ab, pl) else None)
            (lazy_some r5))
          (lazy_some r3))
        (lazy_some r1))"

text \<open>
  \<^verbatim>\<open>((-(?P<build>\d.*?))?-...)\<close>: the build group first, every extent of it, and only
  then the alternative without a build.
\<close>

definition match_build_tags ::
  "string \<Rightarrow> (string option \<times> string \<times> string \<times> string) option" where
  "match_build_tags r0 =
     (case (case lit CHR ''-'' r0 of None \<Rightarrow> None | Some r1 \<Rightarrow>
              first_match (\<lambda>(b, r2).
                case match_tags r2 of None \<Rightarrow> None | Some t \<Rightarrow> Some (Some b, t))
                (digit_then_any r1)) of
        Some m \<Rightarrow> Some m
      | None \<Rightarrow> (case match_tags r0 of None \<Rightarrow> None | Some t \<Rightarrow> Some (None, t)))"

record wheel =
  filename :: string
  project_name :: string
  version :: string
  build :: "string option"
  py_version :: string
  abi :: string
  platform :: string

text \<open>The groups of the match, in the order of \<^verbatim>\<open>groupdict()\<close>.\<close>

definition WHEEL_NAME ::
  "string \<Rightarrow> (string \<times> string \<times> string option \<times> string \<times> string \<times> string) option" where
  "WHEEL_NAME s =
     first_match (\<lambda>(pn, r0).
       case lit CHR ''-'' r0 of None \<Rightarrow> None | Some r1 \<Rightarrow>
       first_match (\<lambda>(ver, r2).
         case match_build_tags r2 of None \<Rightarrow> None
         | Some (b, py, ab, pl) \<Rightarrow> Some (pn, ver, b, py, ab, pl))
         (digit_then_any r1))
       (lazy_some s)"

text \<open>
  \<^verbatim>\<open>Wheel.__init__\<close>. \<open>InvalidWheelName filename\<close> is
  \<^verbatim>\<open>ValueError('invalid wheel name: %r' % filename)\<close>, raised before any attribute is
  set.
\<close>

definition Wheel_init :: "string \<Rightarrow> error + wheel" where
  "Wheel_init fname =
     (case WHEEL_NAME (basename fname) of
        None \<Rightarrow> Inl (InvalidWheelName fname)
      | Some (pn, ver, b, py, ab, pl) \<Rightarrow>
          Inr \<lparr>filename = fname, project_name = pn, version = ver, build = b,
               py_version = py, abi = ab, platform = pl\<rparr>)"

text \<open>
  The file name grammar in the words of the specification, for comparison with the
  matcher: \<open>s\<close> is the six fields joined by hyphens and followed by \<open>e\<close>. A field is a
  non-empty run of characters other than the line feed.
\<close>

definition field_ok :: "string \<Rightarrow> bool" where
  "field_ok p \<longleftrightarrow> p \<noteq> [] \<and> newline \<notin> set p"

definition grammar ::
  "string \<Rightarrow> string \<times> string \<times> string option \<times> string \<times> string \<times> string \<Rightarrow> string \<Rightarrow> bool"
  where
  "grammar s g e \<longleftrightarrow>
     (case g of (pn, ver, b, py, ab, pl) \<Rightarrow>
        s = pn @ CHR ''-'' # ver @ (case b of None \<Rightarrow> [] | Some x \<Rightarrow> CHR ''-'' # x) @
              CHR ''-'' # py @ CHR ''-'' # ab @ CHR ''-'' # pl @ e \<and>
        field_ok pn \<and> field_ok ver \<and> is_digit (hd ver) \<and>
        (case b of None \<Rightarrow> True | Some x \<Rightarrow> field_ok x \<and> is_digit (hd x)) \<and>
        field_ok py \<and> field_ok ab \<and> field_ok pl)"

subsection \<open>Tags and compatibility\<close>

type_synonym tag = "string \<times> string \<times> string"

text \<open>
  \<^verbatim>\<open>Wheel.tags\<close>: \<^verbatim>\<open>itertools.product\<close> of the three split fields, the rightmost
  advancing fastest.
\<close>

definition tags :: "wheel \<Rightarrow> tag list" where
  "tags w =
     concat (map (\<lambda>p. concat (map (\<lambda>a. map (\<lambda>l. (p, a, l))
       (split_on CHR ''.'' (platform w)))
       (split_on CHR ''.'' (abi w))))
       (split_on CHR ''.'' (py_version w)))"

text \<open>
  \<^verbatim>\<open>next((True for t in self.tags() if t in supported_tags), False)\<close>: the generator is
  advanced until the first tag that is supported. The second component counts the tags
  the generator drew from the product, which is how far the iteration went.
\<close>

fun next_true :: "tag list \<Rightarrow> tag list \<Rightarrow> bool \<times> nat" where
  "next_true supported [] = (False, 0)"
| "next_true supported (t # ts) =
     (if t \<in> set supported then (True, 1)
      else (let (b, n) = next_true supported ts in (b, Suc n)))"

definition is_compatible :: "tag list \<Rightarrow> wheel \<Rightarrow> bool" where
  "is_compatible supported_tags w = fst (next_true supported_tags (tags w))"

definition tags_drawn :: "tag list \<Rightarrow> wheel \<Rightarrow> nat" where
  "tags_drawn supported_tags w = snd (next_true supported_tags (tags w))"

subsection \<open>The legacy name\<close>

record distribution =
  dist_project_name :: string
  dist_version :: string
  dist_platform :: "string option"

text \<open>
  Modelled from the spec: \<^verbatim>\<open>pkg_resources.Distribution.egg_name\<close>, which is not part
  of the source file. The specification gives the legacy name as
  \<^verbatim>\<open>{projectName}-{version}-{platformDescriptor}\<close> with the platform descriptor left out
  when there is none.
\<close>

definition Distribution_egg_name :: "distribution \<Rightarrow> string" where
  "Distribution_egg_name d =
     dist_project_name d @ ''-'' @ dist_version d @
     (case dist_platform d of None \<Rightarrow> [] | Some p \<Rightarrow> ''-'' @ p)"

text \<open>
  \<^verbatim>\<open>Wheel.egg_name\<close>. The first argument is the value of
  \<^verbatim>\<open>distutils.util.get_platform()\<close> on the host.
\<close>

definition egg_name :: "string \<Rightarrow> wheel \<Rightarrow> string" where
  "egg_name get_platform w =
     Distribution_egg_name
       \<lparr>dist_project_name = project_name w, dist_version = version w,
        dist_platform = (if platform w = ''any'' then None else Some get_platform)\<rparr>
     @ ''.egg''"

subsection \<open>Finding the metadata directory\<close>

definition is_sep :: "char \<Rightarrow> bool" where
  "is_sep c = (c \<in> set ''-_.'')"

definition lower_char :: "char \<Rightarrow> char" where
  "lower_char c =
     (case map_of (zip ''ABCDEFGHIJKLMNOPQRSTUVWXYZ'' ''abcdefghijklmnopqrstuvwxyz'') c of
        None \<Rightarrow> c | Some l \<Rightarrow> l)"

function collapse_seps :: "string \<Rightarrow> string" where
  "collapse_seps [] = []"
| "collapse_seps (c # cs) =
     (if is_sep c then CHR ''-'' # collapse_seps (dropWhile is_sep cs)
      else c # collapse_seps cs)"
  by pat_completeness auto
termination
  by (relation "measure length") (auto simp: less_Suc_eq_le length_dropWhile_le)

text \<open>
  Modelled from the spec: \<^verbatim>\<open>packaging.utils.canonicalize_name\<close>, vendored outside the
  source file. The specification calls it the case- and separator-normalised package
  name: every run of hyphens, underscores and dots becomes one hyphen, and letters are
  lowered.
\<close>

definition canonicalize_name :: "string \<Rightarrow> string" where
  "canonicalize_name name = map lower_char (collapse_seps name)"

text \<open>The test of \<^verbatim>\<open>get_dist_info\<close> on one directory name.\<close>

definition dist_info_candidate :: "string \<Rightarrow> string \<Rightarrow> bool" where
  "dist_info_candidate pn d \<longleftrightarrow>
     endswith d ''.dist-info'' \<and>
     startswith (canonicalize_name d) (canonicalize_name pn)"

text \<open>
  \<^verbatim>\<open>Wheel.get_dist_info\<close> over \<^verbatim>\<open>zf.namelist()\<close>. \<open>DistInfoNotFound\<close> is
  \<^verbatim>\<open>ValueError("unsupported wheel format. .dist-info not found")\<close>.
\<close>

fun get_dist_info :: "string \<Rightarrow> string list \<Rightarrow> error + string" where
  "get_dist_info pn [] = Inl DistInfoNotFound"
| "get_dist_info pn (member # rest) =
     (if dist_info_candidate pn (dirname member) then Inr (dirname member)
      else get_dist_info pn rest)"



subsection \<open>The format version\<close>

text \<open>
  Modelled from the spec: \<^verbatim>\<open>pkg_resources.parse_version\<close> and the order of the versions
  it returns, which are not part of the source file. The specification asks for the
  field to be parsed as a version number and compared with \<^verbatim>\<open>1.0\<close> and
  \<^verbatim>\<open>2.0dev0\<close>. The model reads the version numbers of the shape
  \<^verbatim>\<open>N(.N)*[{a|b|rc}N][.postN][[.]devN]\<close>; any other string is a legacy version, which
  sorts before every version number. The order is the one of the comparison key: the
  release without its trailing zeros, then the pre-release, the post-release and the
  development release, where a development release of a plain release sorts before
  its pre-releases and a final release after them.
\<close>

datatype pkg_version =
    LegacyVersion string
  | Version (release: "nat list") (pre: "(nat \<times> nat) option") (post: "nat option")
      (dev: "nat option")

definition digit_val :: "char \<Rightarrow> nat" where
  "digit_val c = of_char c - 48"

definition nat_of_digits :: "string \<Rightarrow> nat" where
  "nat_of_digits ds = foldl (\<lambda>n c. 10 * n + digit_val c) 0 ds"

function parse_release :: "string \<Rightarrow> (nat list \<times> string) option" where
  "parse_release s =
     (let ds = takeWhile is_digit s; r = dropWhile is_digit s in
      if ds = [] then None
      else (case r of
              c # r' \<Rightarrow>
                (if c = CHR ''.'' \<and> r' \<noteq> [] \<and> is_digit (hd r')
                 then (case parse_release r' of
                         None \<Rightarrow> Some ([nat_of_digits ds], r)
                       | Some (ns, r'') \<Rightarrow> Some (nat_of_digits ds # ns, r''))
                 else Some ([nat_of_digits ds], r))
            | [] \<Rightarrow> Some ([nat_of_digits ds], r)))"
  by pat_completeness auto
termination
proof (relation "measure length")
  fix s ds r c r'
  assume "r = dropWhile is_digit s" and "r = c # r'"
  then have "length (c # r') \<le> length s"
    using length_dropWhile_le [of is_digit s] by simp
  then show "(r', s) \<in> measure length" by simp
qed simp

text \<open>A literal followed by one or more digits.\<close>

definition tagged_number :: "string \<Rightarrow> string \<Rightarrow> (nat \<times> string) option" where
  "tagged_number tag s =
     (if prefix tag s \<and> takeWhile is_digit (drop (length tag) s) \<noteq> []
      then Some (nat_of_digits (takeWhile is_digit (drop (length tag) s)),
                 dropWhile is_digit (drop (length tag) s))
      else None)"

definition parse_pre :: "string \<Rightarrow> (nat \<times> nat) option \<times> string" where
  "parse_pre s =
     (case tagged_number ''a'' s of Some (n, r) \<Rightarrow> (Some (0, n), r) | None \<Rightarrow>
       (case tagged_number ''b'' s of Some (n, r) \<Rightarrow> (Some (1, n), r) | None \<Rightarrow>
         (case tagged_number ''rc'' s of Some (n, r) \<Rightarrow> (Some (2, n), r) | None \<Rightarrow>
            (None, s))))"

definition parse_post :: "string \<Rightarrow> nat option \<times> string" where
  "parse_post s =
     (case tagged_number ''.post'' s of Some (n, r) \<Rightarrow> (Some n, r) | None \<Rightarrow> (None, s))"

definition parse_dev :: "string \<Rightarrow> nat option \<times> string" where
  "parse_dev s =
     (case tagged_number ''.dev'' s of Some (n, r) \<Rightarrow> (Some n, r) | None \<Rightarrow>
       (case tagged_number ''dev'' s of Some (n, r) \<Rightarrow> (Some n, r) | None \<Rightarrow>
          (None, s)))"

definition parse_version :: "string \<Rightarrow> pkg_version" where
  "parse_version s =
     (case parse_release s of
        None \<Rightarrow> LegacyVersion s
      | Some (rel, r0) \<Rightarrow>
          (let (p, r1) = parse_pre r0; (q, r2) = parse_post r1; (d, r3) = parse_dev r2
           in if r3 = [] then Version rel p q d else LegacyVersion s))"

type_synonym version_key = "int \<times> nat list \<times> (int \<times> int) \<times> int \<times> (int \<times> int)"

fun cmpkey :: "pkg_version \<Rightarrow> version_key" where
  "cmpkey (LegacyVersion s) = (- 1, [], (0, 0), 0, (0, 0))"
| "cmpkey (Version rel p q d) =
     (0,
      rev (dropWhile (\<lambda>x. x = 0) (rev rel)),
      (if p = None \<and> q = None \<and> d \<noteq> None then (- 1, 0)
       else (case p of None \<Rightarrow> (3, 0) | Some (ph, n) \<Rightarrow> (int ph, int n))),
      (case q of None \<Rightarrow> - 1 | Some n \<Rightarrow> int n),
      (case d of None \<Rightarrow> (1, 0) | Some n \<Rightarrow> (0, int n)))"

definition version_le :: "pkg_version \<Rightarrow> pkg_version \<Rightarrow> bool" where
  "version_le a b \<longleftrightarrow> cmpkey a \<le> cmpkey b"

definition version_less :: "pkg_version \<Rightarrow> pkg_version \<Rightarrow> bool" where
  "version_less a b \<longleftrightarrow> cmpkey a < cmpkey b"

text \<open>
  The check of \<^verbatim>\<open>_install_as_egg\<close> on the \<^verbatim>\<open>Wheel-Version\<close> field:
  \<^verbatim>\<open>parse_version('1.0') <= wheel_version < parse_version('2.0dev0')\<close>, and
  \<^verbatim>\<open>ValueError('unsupported wheel format version: %s' % wheel_version)\<close> otherwise.
\<close>

definition wheel_v1 :: "pkg_version \<Rightarrow> bool" where
  "wheel_v1 wheel_version \<longleftrightarrow>
     version_le (parse_version ''1.0'') wheel_version \<and>
     version_less wheel_version (parse_version ''2.0dev0'')"

definition check_wheel_version :: "string \<Rightarrow> error + unit" where
  "check_wheel_version v =
     (if \<not> wheel_v1 (parse_version v) then Inl (UnsupportedWheelVersion v) else Inr ())"

subsection \<open>Requirements\<close>

text \<open>
  Modelled from the spec: the requirement objects of \<^verbatim>\<open>pkg_resources\<close> and their
  rendering, which are not part of the source file. A requirement renders as its plain
  text, followed by a semicolon and its environment marker when it has one.
\<close>

record requirement =
  req_text :: string
  marker :: "string option"

definition req_str :: "requirement \<Rightarrow> string" where
  "req_str r = req_text r @ (case marker r of None \<Rightarrow> [] | Some m \<Rightarrow> ''; '' @ m)"

text \<open>\<^verbatim>\<open>req.marker = None; return str(req)\<close>\<close>

definition raw_req :: "requirement \<Rightarrow> string" where
  "raw_req req = req_str (req\<lparr>marker := None\<rparr>)"

text \<open>
  The distribution built from the extracted metadata: \<^verbatim>\<open>dist.requires(extras)\<close> and
  \<^verbatim>\<open>dist.extras\<close>.
\<close>

record dist =
  requires :: "string list \<Rightarrow> requirement list"
  extras :: "string list"

definition install_requires :: "dist \<Rightarrow> string list" where
  "install_requires d = sort (map raw_req (requires d []))"

text \<open>
  The dictionary comprehension over \<^verbatim>\<open>dist.extras\<close>: a later occurrence of a key
  replaces an earlier one.
\<close>

definition extra_reqs :: "dist \<Rightarrow> string \<Rightarrow> string list" where
  "extra_reqs d extra =
     sort (filter (\<lambda>req. req \<notin> set (install_requires d)) (map raw_req (requires d [extra])))"

definition extras_require :: "dist \<Rightarrow> (string \<rightharpoonup> string list)" where
  "extras_require d = fold (\<lambda>extra m. m(extra \<mapsto> extra_reqs d extra)) (extras d) Map.empty"

subsection \<open>The file system\<close>

text \<open>
  A path is the list of its components below the root, a directory is the list of its
  entries in the order \<^verbatim>\<open>os.listdir\<close> gives them. The calls that change the tree are
  the system calls of \<^verbatim>\<open>os\<close>; each returns the new tree or the \<^verbatim>\<open>OSError\<close> it
  raises, in which case the tree is as before.
\<close>

type_synonym path = "string list"

datatype node = File string | Dir "(string \<times> node) list"

fun lookup :: "node \<Rightarrow> path \<Rightarrow> node option" where
  "lookup n [] = Some n"
| "lookup (File _) (c # p) = None"
| "lookup (Dir es) (c # p) = (case map_of es c of None \<Rightarrow> None | Some n \<Rightarrow> lookup n p)"

text \<open>Apply \<open>g\<close> to the node at a path and put the result in its place.\<close>

fun focus :: "path \<Rightarrow> (node \<Rightarrow> error + node) \<Rightarrow> node \<Rightarrow> error + node" where
  "focus [] g n = g n"
| "focus (c # p) g (File _) = Inl (OSError ENOTDIR)"
| "focus (c # p) g (Dir es) =
     (case map_of es c of
        None \<Rightarrow> Inl (OSError ENOENT)
      | Some n \<Rightarrow>
          (case focus p g n of
             Inl e \<Rightarrow> Inl e
           | Inr n' \<Rightarrow> Inr (Dir (AList.update c n' es))))"

text \<open>Apply \<open>f\<close> to the entries of the directory at a path.\<close>

definition on_entries ::
  "((string \<times> node) list \<Rightarrow> error + (string \<times> node) list) \<Rightarrow> node \<Rightarrow> error + node" where
  "on_entries f n =
     (case n of
        File _ \<Rightarrow> Inl (OSError ENOTDIR)
      | Dir es \<Rightarrow> (case f es of Inl e \<Rightarrow> Inl e | Inr es' \<Rightarrow> Inr (Dir es')))"

definition in_dir ::
  "path \<Rightarrow> ((string \<times> node) list \<Rightarrow> error + (string \<times> node) list) \<Rightarrow> node \<Rightarrow> error + node"
  where
  "in_dir p f = focus p (on_entries f)"

definition mkdir_entry :: "string \<Rightarrow> (string \<times> node) list \<Rightarrow> error + (string \<times> node) list"
  where
  "mkdir_entry c es =
     (case map_of es c of
        None \<Rightarrow> Inr (es @ [(c, Dir [])])
      | Some _ \<Rightarrow> Inl (OSError EEXIST))"

definition os_mkdir :: "path \<Rightarrow> node \<Rightarrow> error + node" where
  "os_mkdir p t =
     (if p = [] then Inl (OSError EEXIST) else in_dir (butlast p) (mkdir_entry (last p)) t)"

definition unlink_entry :: "string \<Rightarrow> (string \<times> node) list \<Rightarrow> error + (string \<times> node) list"
  where
  "unlink_entry c es =
     (case map_of es c of
        None \<Rightarrow> Inl (OSError ENOENT)
      | Some (Dir _) \<Rightarrow> Inl (OSError EISDIR)
      | Some (File _) \<Rightarrow> Inr (AList.delete c es))"

definition os_unlink :: "path \<Rightarrow> node \<Rightarrow> error + node" where
  "os_unlink p t =
     (if p = [] then Inl (OSError EISDIR) else in_dir (butlast p) (unlink_entry (last p)) t)"

definition rmdir_entry :: "string \<Rightarrow> (string \<times> node) list \<Rightarrow> error + (string \<times> node) list"
  where
  "rmdir_entry c es =
     (case map_of es c of
        None \<Rightarrow> Inl (OSError ENOENT)
      | Some (File _) \<Rightarrow> Inl (OSError ENOTDIR)
      | Some (Dir []) \<Rightarrow> Inr (AList.delete c es)
      | Some (Dir (_ # _)) \<Rightarrow> Inl (OSError ENOTEMPTY))"

definition os_rmdir :: "path \<Rightarrow> node \<Rightarrow> error + node" where
  "os_rmdir p t =
     (if p = [] then Inl (OSError EBUSY) else in_dir (butlast p) (rmdir_entry (last p)) t)"

text \<open>
  \<^verbatim>\<open>open(path, 'wb')\<close> followed by the write: the file is created or replaced, a
  directory is not.
\<close>

definition write_entry ::
  "string \<Rightarrow> string \<Rightarrow> (string \<times> node) list \<Rightarrow> error + (string \<times> node) list" where
  "write_entry c content es =
     (case map_of es c of
        Some (Dir _) \<Rightarrow> Inl (OSError EISDIR)
      | _ \<Rightarrow> Inr (AList.update c (File content) es))"

definition os_write :: "path \<Rightarrow> string \<Rightarrow> node \<Rightarrow> error + node" where
  "os_write p content t =
     (if p = [] then Inl (OSError EISDIR)
      else in_dir (butlast p) (write_entry (last p) content) t)"

text \<open>
  \<^verbatim>\<open>os.rename\<close>: what may be replaced is a file by a file and an empty directory by a
  directory; a directory cannot be moved below itself.
\<close>

fun rename_onto :: "node \<Rightarrow> node option \<Rightarrow> errno option" where
  "rename_onto n None = None"
| "rename_onto (File _) (Some (File _)) = None"
| "rename_onto (File _) (Some (Dir _)) = Some EISDIR"
| "rename_onto (Dir _) (Some (File _)) = Some ENOTDIR"
| "rename_onto (Dir _) (Some (Dir [])) = None"
| "rename_onto (Dir _) (Some (Dir (_ # _))) = Some ENOTEMPTY"

definition os_rename :: "path \<Rightarrow> path \<Rightarrow> node \<Rightarrow> error + node" where
  "os_rename src dst t =
     (case lookup t src of
        None \<Rightarrow> Inl (OSError ENOENT)
      | Some n \<Rightarrow>
          if src = [] \<or> dst = [] then Inl (OSError EBUSY)
          else if src = dst then Inr t
          else if strict_prefix src dst
            then Inl (OSError (case n of File _ \<Rightarrow> ENOTDIR | Dir _ \<Rightarrow> EINVAL))
          else (case rename_onto n (lookup t dst) of
                  Some e \<Rightarrow> Inl (OSError e)
                | None \<Rightarrow>
                    (case in_dir (butlast src) (\<lambda>es. Inr (AList.delete (last src) es)) t of
                       Inl e \<Rightarrow> Inl e
                     | Inr t' \<Rightarrow>
                         in_dir (butlast dst) (\<lambda>es. Inr (AList.update (last dst) n es)) t')))"

text \<open>The tree with the node at a path replaced, when the path exists.\<close>

fun replace_at :: "path \<Rightarrow> node \<Rightarrow> node \<Rightarrow> node" where
  "replace_at [] n' t = n'"
| "replace_at (c # p) n' (File x) = File x"
| "replace_at (c # p) n' (Dir es) =
     (case map_of es c of
        None \<Rightarrow> Dir es
      | Some n \<Rightarrow> Dir (AList.update c (replace_at p n' n) es))"

datatype syscall =
    Mkdir path
  | Write path string
  | Rename path path
  | Unlink path
  | Rmdir path

fun exec :: "syscall \<Rightarrow> node \<Rightarrow> error + node" where
  "exec (Mkdir p) = os_mkdir p"
| "exec (Write p content) = os_write p content"
| "exec (Rename src dst) = os_rename src dst"
| "exec (Unlink p) = os_unlink p"
| "exec (Rmdir p) = os_rmdir p"

text \<open>
  The state the module runs in: the tree, and the journal of the changing system calls
  that have succeeded, oldest first. A call that raises changes neither.
\<close>

datatype fs = FS (root: node) (journal: "syscall list")

type_synonym 'a io = "fs \<Rightarrow> (error + 'a) \<times> fs"

definition sys :: "syscall \<Rightarrow> unit io" where
  "sys c s =
     (case exec c (root s) of
        Inl e \<Rightarrow> (Inl e, s)
      | Inr t \<Rightarrow> (Inr (), FS t (journal s @ [c])))"

definition os_path_exists :: "path \<Rightarrow> fs \<Rightarrow> bool" where
  "os_path_exists p s \<longleftrightarrow> lookup (root s) p \<noteq> None"

definition os_path_isdir :: "path \<Rightarrow> fs \<Rightarrow> bool" where
  "os_path_isdir p s \<longleftrightarrow> (case lookup (root s) p of Some (Dir _) \<Rightarrow> True | _ \<Rightarrow> False)"

definition os_listdir :: "path \<Rightarrow> fs \<Rightarrow> error + string list" where
  "os_listdir p s =
     (case lookup (root s) p of
        None \<Rightarrow> Inl (OSError ENOENT)
      | Some (File _) \<Rightarrow> Inl (OSError ENOTDIR)
      | Some (Dir es) \<Rightarrow> Inr (map fst es))"

text \<open>
  \<^verbatim>\<open>os.makedirs\<close>, on the reversed path: the parent first when it does not exist, where
  a \<^verbatim>\<open>FileExistsError\<close> from it is passed over, then the directory itself.
\<close>

fun makedirs_rev :: "path \<Rightarrow> unit io" where
  "makedirs_rev [] s = sys (Mkdir []) s"
| "makedirs_rev (c # rp) s =
     (if rp \<noteq> [] \<and> \<not> os_path_exists (rev rp) s
      then (case makedirs_rev rp s of
              (Inl (OSError EEXIST), s') \<Rightarrow> sys (Mkdir (rev (c # rp))) s'
            | (Inl e, s') \<Rightarrow> (Inl e, s')
            | (Inr _, s') \<Rightarrow> sys (Mkdir (rev (c # rp))) s')
      else sys (Mkdir (rev (c # rp))) s)"

definition os_makedirs :: "path \<Rightarrow> unit io" where
  "os_makedirs p = makedirs_rev (rev p)"

text \<open>
  \<^verbatim>\<open>os.removedirs\<close>: the directory itself, then every parent in turn until one cannot
  be removed.
\<close>

fun prune_rev :: "path \<Rightarrow> fs \<Rightarrow> fs" where
  "prune_rev [] s = s"
| "prune_rev (c # rp) s =
     (case sys (Rmdir (rev (c # rp))) s of
        (Inl _, _) \<Rightarrow> s
      | (Inr _, s') \<Rightarrow> prune_rev rp s')"

definition os_removedirs :: "path \<Rightarrow> unit io" where
  "os_removedirs p s =
     (case sys (Rmdir p) s of
        (Inl e, s') \<Rightarrow> (Inl e, s')
      | (Inr _, s') \<Rightarrow> (Inr (), prune_rev (rev (butlast p)) s'))"

text \<open>
  \<^verbatim>\<open>os.renames\<close>: create the directories above the new name, rename, and prune the
  directories above the old name that have become empty; an error of the pruning is
  dropped.
\<close>

definition os_renames :: "path \<Rightarrow> path \<Rightarrow> unit io" where
  "os_renames old new s =
     (case (if new \<noteq> [] \<and> \<not> os_path_exists (butlast new) s
            then os_makedirs (butlast new) s else (Inr (), s)) of
        (Inl e, s1) \<Rightarrow> (Inl e, s1)
      | (Inr _, s1) \<Rightarrow>
          (case sys (Rename old new) s1 of
             (Inl e, s2) \<Rightarrow> (Inl e, s2)
           | (Inr _, s2) \<Rightarrow>
               (if old \<noteq> []
                then (case os_removedirs (butlast old) s2 of
                        (Inl _, _) \<Rightarrow> (Inr (), s2)
                      | (Inr _, s3) \<Rightarrow> (Inr (), s3))
                else (Inr (), s2))))"

subsection \<open>\<^verbatim>\<open>unpack\<close>\<close>

text \<open>
  \<^verbatim>\<open>os.walk(top, topdown=True)\<close> with the body of the loop that consumes it. The
  generator lists a directory when it reaches it, hands the names of its directories and
  of its other entries to the body, and then descends into the directories the body has
  left in the list, each listed in the state the body and the earlier visits have left.
  A directory that cannot be listed ends its visit without an error. The first argument
  bounds the depth of the descent; \<open>None\<close> is a walk that needs more.
\<close>

type_synonym walk_body = "path \<Rightarrow> string list \<Rightarrow> string list \<Rightarrow> (string list) io"

fun walk :: "nat \<Rightarrow> walk_body \<Rightarrow> path \<Rightarrow> fs \<Rightarrow> ((error + unit) \<times> fs) option"
  and walk_dirs :: "nat \<Rightarrow> walk_body \<Rightarrow> path \<Rightarrow> string list \<Rightarrow> fs \<Rightarrow> ((error + unit) \<times> fs) option"
  where
  "walk 0 body dirpath s = None"
| "walk (Suc k) body dirpath s =
     (case lookup (root s) dirpath of
        Some (Dir es) \<Rightarrow>
          (case body dirpath
                  (map fst (filter (\<lambda>(name, n). case n of Dir _ \<Rightarrow> True | File _ \<Rightarrow> False) es))
                  (map fst (filter (\<lambda>(name, n). case n of Dir _ \<Rightarrow> False | File _ \<Rightarrow> True) es))
                  s of
             (Inl e, s') \<Rightarrow> Some (Inl e, s')
           | (Inr dirnames, s') \<Rightarrow> walk_dirs k body dirpath dirnames s')
      | _ \<Rightarrow> Some (Inr (), s))"
| "walk_dirs k body dirpath [] s = Some (Inr (), s)"
| "walk_dirs k body dirpath (d # ds) s =
     (case walk k body (dirpath @ [d]) s of
        None \<Rightarrow> None
      | Some (Inl e, s') \<Rightarrow> Some (Inl e, s')
      | Some (Inr _, s') \<Rightarrow> walk_dirs k body dirpath ds s')"

text \<open>\<^verbatim>\<open>for f in filenames: os.renames(join(dirpath, f), join(dst_dir, subdir, f))\<close>\<close>

fun move_files :: "path \<Rightarrow> path \<Rightarrow> string list \<Rightarrow> unit io" where
  "move_files dirpath dst [] s = (Inr (), s)"
| "move_files dirpath dst (f # fs) s =
     (case os_renames (dirpath @ [f]) (dst @ [f]) s of
        (Inl e, s') \<Rightarrow> (Inl e, s')
      | (Inr _, s') \<Rightarrow> move_files dirpath dst fs s')"

text \<open>
  \<^verbatim>\<open>for n, d in reversed(list(enumerate(dirnames)))\<close>: a directory the destination does
  not have is renamed as a whole and deleted from \<^verbatim>\<open>dirnames\<close>, so that the walk does
  not descend into it.
\<close>

fun move_dirs :: "path \<Rightarrow> path \<Rightarrow> (nat \<times> string) list \<Rightarrow> string list \<Rightarrow> (string list) io" where
  "move_dirs dirpath dst [] dirnames s = (Inr dirnames, s)"
| "move_dirs dirpath dst ((n, d) # rest) dirnames s =
     (if \<not> os_path_exists (dst @ [d]) s
      then (case os_renames (dirpath @ [d]) (dst @ [d]) s of
              (Inl e, s') \<Rightarrow> (Inl e, s')
            | (Inr _, s') \<Rightarrow>
                move_dirs dirpath dst rest (take n dirnames @ drop (Suc n) dirnames) s')
      else move_dirs dirpath dst rest dirnames s)"

text \<open>
  The body of the first loop. \<^verbatim>\<open>subdir\<close> is \<^verbatim>\<open>os.path.relpath(dirpath, src_dir)\<close>: what
  follows \<open>src_dir\<close> in \<open>dirpath\<close>.
\<close>

definition unpack_move :: "path \<Rightarrow> path \<Rightarrow> walk_body" where
  "unpack_move src_dir dst_dir dirpath dirnames filenames s =
     (let subdir = drop (length src_dir) dirpath in
      case move_files dirpath (dst_dir @ subdir) filenames s of
        (Inl e, s') \<Rightarrow> (Inl e, s')
      | (Inr _, s') \<Rightarrow>
          move_dirs dirpath (dst_dir @ subdir) (rev (enumerate 0 dirnames)) dirnames s')"

text \<open>The body of the cleanup loop: \<^verbatim>\<open>assert not filenames; os.rmdir(dirpath)\<close>\<close>

definition unpack_cleanup :: walk_body where
  "unpack_cleanup dirpath dirnames filenames s =
     (if filenames \<noteq> [] then (Inl AssertionError, s)
      else (case sys (Rmdir dirpath) s of
              (Inl e, s') \<Rightarrow> (Inl e, s')
            | (Inr _, s') \<Rightarrow> (Inr dirnames, s')))"

definition unpack :: "nat \<Rightarrow> path \<Rightarrow> path \<Rightarrow> fs \<Rightarrow> ((error + unit) \<times> fs) option" where
  "unpack fuel src_dir dst_dir s =
     (case walk fuel (unpack_move src_dir dst_dir) src_dir s of
        None \<Rightarrow> None
      | Some (Inl e, s') \<Rightarrow> Some (Inl e, s')
      | Some (Inr _, s') \<Rightarrow> walk fuel unpack_cleanup src_dir s')"

subsection \<open>Installing as an egg\<close>

text \<open>
  The open archive: its members in the order of \<^verbatim>\<open>zf.namelist()\<close>, each with its
  content. \<^verbatim>\<open>zf.open(name)\<close> finds the last member of that name and raises
  \<^verbatim>\<open>KeyError\<close> when there is none.
\<close>

type_synonym zipfile = "(string \<times> string) list"

definition namelist :: "zipfile \<Rightarrow> string list" where
  "namelist zf = map fst zf"

definition zf_open :: "zipfile \<Rightarrow> string \<Rightarrow> error + string" where
  "zf_open zf name =
     (case map_of (rev zf) name of None \<Rightarrow> Inl (KeyError name) | Some content \<Rightarrow> Inr content)"

text \<open>\<^verbatim>\<open>posixpath.join\<close> of two parts.\<close>

definition posixpath_join :: "string \<Rightarrow> string \<Rightarrow> string" where
  "posixpath_join a b =
     (if startswith b ''/'' then b
      else if a = [] \<or> endswith a ''/'' then a @ b
      else a @ ''/'' @ b)"

text \<open>
  \<^verbatim>\<open>ZipFile.extractall\<close> extracts the names of \<^verbatim>\<open>namelist()\<close> in turn, each with
  the content \<^verbatim>\<open>zf.open\<close> finds for it. The member name loses its empty, \<^verbatim>\<open>.\<close> and
  \<^verbatim>\<open>..\<close> components, the directories above the target are made when the one just above
  is missing, and the target is made as a directory when the name ends in a slash and
  written as a file otherwise.
\<close>

definition member_path :: "string \<Rightarrow> path" where
  "member_path name =
     filter (\<lambda>x. x \<noteq> [] \<and> x \<noteq> ''.'' \<and> x \<noteq> ''..'') (split_on CHR ''/'' name)"

definition extract_member :: "zipfile \<Rightarrow> path \<Rightarrow> string \<Rightarrow> unit io" where
  "extract_member zf dest name s =
     (let targetpath = dest @ member_path name in
      case (if targetpath \<noteq> [] \<and> \<not> os_path_exists (butlast targetpath) s
            then os_makedirs (butlast targetpath) s else (Inr (), s)) of
        (Inl e, s1) \<Rightarrow> (Inl e, s1)
      | (Inr _, s1) \<Rightarrow>
          if endswith name ''/''
          then (if \<not> os_path_isdir targetpath s1 then sys (Mkdir targetpath) s1
                else (Inr (), s1))
          else (case zf_open zf name of
                  Inl e \<Rightarrow> (Inl e, s1)
                | Inr content \<Rightarrow> sys (Write targetpath content) s1))"

fun extract_members :: "zipfile \<Rightarrow> string list \<Rightarrow> path \<Rightarrow> unit io" where
  "extract_members zf [] dest s = (Inr (), s)"
| "extract_members zf (name # names) dest s =
     (case extract_member zf dest name s of
        (Inl e, s') \<Rightarrow> (Inl e, s')
      | (Inr _, s') \<Rightarrow> extract_members zf names dest s')"

definition extractall :: "zipfile \<Rightarrow> path \<Rightarrow> unit io" where
  "extractall zf dest = extract_members zf (namelist zf) dest"

text \<open>
  The first part of \<^verbatim>\<open>_install_as_egg\<close>, up to the extraction: the metadata
  directory is looked up, \<^verbatim>\<open>WHEEL\<close> is read from it and its \<^verbatim>\<open>Wheel-Version\<close> is
  checked, and then the destination is made and the archive extracted into it. The
  first argument stands for the header parser of \<^verbatim>\<open>email\<close>: the value of a field of a
  text, when the text has the field. Without the field \<^verbatim>\<open>parse_version(None)\<close> raises
  \<^verbatim>\<open>TypeError\<close>. What the function returns on success is the name of the metadata
  directory, which the rest of the installation works on.
\<close>

definition install_validate ::
  "(string \<Rightarrow> string \<Rightarrow> string option) \<Rightarrow> wheel \<Rightarrow> zipfile \<Rightarrow> error + string" where
  "install_validate header w zf =
     (case get_dist_info (project_name w) (namelist zf) of
        Inl e \<Rightarrow> Inl e
      | Inr dist_info \<Rightarrow>
          (case zf_open zf (posixpath_join dist_info ''WHEEL'') of
             Inl e \<Rightarrow> Inl e
           | Inr wheel_metadata \<Rightarrow>
               (case header wheel_metadata ''Wheel-Version'' of
                  None \<Rightarrow> Inl TypeError
                | Some v \<Rightarrow>
                    (case check_wheel_version v of
                       Inl e \<Rightarrow> Inl e
                     | Inr _ \<Rightarrow> Inr dist_info))))"

definition install_extract ::
  "(string \<Rightarrow> string \<Rightarrow> string option) \<Rightarrow> wheel \<Rightarrow> path \<Rightarrow> zipfile \<Rightarrow> string io" where
  "install_extract header w destination_eggdir zf s =
     (case install_validate header w zf of
        Inl e \<Rightarrow> (Inl e, s)
      | Inr dist_info \<Rightarrow>
          (case sys (Mkdir destination_eggdir) s of
             (Inl e, s1) \<Rightarrow> (Inl e, s1)
           | (Inr _, s1) \<Rightarrow>
               (case extractall zf destination_eggdir s1 of
                  (Inl e, s2) \<Rightarrow> (Inl e, s2)
                | (Inr _, s2) \<Rightarrow> (Inr dist_info, s2))))"

text \<open>
  The relocation of the scripts in \<^verbatim>\<open>_install_as_egg\<close>:
  \<^verbatim>\<open>for entry in os.listdir(dist_data_scripts)\<close> unlinks the byte code and renames
  every other entry into \<^verbatim>\<open>EGG-INFO/scripts\<close>.
\<close>

definition dist_data_name :: "wheel \<Rightarrow> string" where
  "dist_data_name w = project_name w @ ''-'' @ version w @ ''.data''"

fun move_scripts :: "path \<Rightarrow> path \<Rightarrow> string list \<Rightarrow> unit io" where
  "move_scripts dist_data_scripts egg_info_scripts [] s = (Inr (), s)"
| "move_scripts dist_data_scripts egg_info_scripts (entry # rest) s =
     (case (if endswith entry ''.pyc''
            then sys (Unlink (dist_data_scripts @ [entry])) s
            else sys (Rename (dist_data_scripts @ [entry]) (egg_info_scripts @ [entry])) s) of
        (Inl e, s') \<Rightarrow> (Inl e, s')
      | (Inr _, s') \<Rightarrow> move_scripts dist_data_scripts egg_info_scripts rest s')"

definition install_scripts :: "wheel \<Rightarrow> path \<Rightarrow> unit io" where
  "install_scripts w destination_eggdir s =
     (let dist_data = destination_eggdir @ [dist_data_name w];
          dist_data_scripts = dist_data @ [''scripts'']
      in if os_path_exists dist_data_scripts s
         then (let egg_info_scripts = destination_eggdir @ [''EGG-INFO'', ''scripts''] in
               case sys (Mkdir egg_info_scripts) s of
                 (Inl e, s1) \<Rightarrow> (Inl e, s1)
               | (Inr _, s1) \<Rightarrow>
                   (case os_listdir dist_data_scripts s1 of
                      Inl e \<Rightarrow> (Inl e, s1)
                    | Inr entries \<Rightarrow>
                        (case move_scripts dist_data_scripts egg_info_scripts entries s1 of
                           (Inl e, s2) \<Rightarrow> (Inl e, s2)
                         | (Inr _, s2) \<Rightarrow> sys (Rmdir dist_data_scripts) s2)))
         else (Inr (), s))"

subsection \<open>Example data\<close>

text \<open>
  The wheel \<^verbatim>\<open>foo-1.0-py2.py3-none-any.whl\<close>, and a reader of one-line headers
  \<^verbatim>\<open>Field: value\<close> to stand for the header parser in the examples.
\<close>

definition foo_wheel :: wheel where
  "foo_wheel =
     \<lparr>filename = ''foo-1.0-py2.py3-none-any.whl'', project_name = ''foo'', version = ''1.0'',
      build = None, py_version = ''py2.py3'', abi = ''none'', platform = ''any''\<rparr>"

definition line_header :: "string \<Rightarrow> string \<Rightarrow> string option" where
  "line_header text field =
     (if prefix (field @ '': '') text then Some (drop (length field + 2) text) else None)"

text \<open>
  A distribution with the base requirement \<^verbatim>\<open>a>=1\<close>, whose extra \<^verbatim>\<open>test\<close> adds the
  requirement \<^verbatim>\<open>b\<close>.
\<close>

definition test_dist :: dist where
  "test_dist =
     \<lparr>requires = (\<lambda>es. if es = [] then [\<lparr>req_text = ''a>=1'', marker = None\<rparr>]
                        else [\<lparr>req_text = ''a>=1'', marker = None\<rparr>,
                              \<lparr>req_text = ''b'', marker = None\<rparr>]),
      extras = [''test'']\<rparr>"

text \<open>The same with markers on the requirements, and requirements out of order.\<close>

definition marked_dist :: dist where
  "marked_dist =
     \<lparr>requires = (\<lambda>es. if es = []
                        then [\<lparr>req_text = ''b'', marker = Some ''python_version < \"3\"''\<rparr>,
                              \<lparr>req_text = ''a>=1'', marker = None\<rparr>]
                        else [\<lparr>req_text = ''b'', marker = Some ''python_version < \"3\"''\<rparr>,
                              \<lparr>req_text = ''a>=1'', marker = None\<rparr>,
                              \<lparr>req_text = ''d'', marker = None\<rparr>,
                              \<lparr>req_text = ''c'', marker = Some ''extra == \"test\"''\<rparr>]),
      extras = [''test'']\<rparr>"

section \<open>Properties\<close>

subsection \<open>Tags\<close>

lemma split_on_nonempty: "split_on c s \<noteq> []"
  by (induction s) (auto simp: Let_def)

lemma next_true_fst: "fst (next_true st ts) \<longleftrightarrow> (\<exists>t \<in> set ts. t \<in> set st)"
  by (induction ts) (auto simp: case_prod_beta)

lemma next_true_snd:
  "snd (next_true st ts) =
     (if \<exists>t \<in> set ts. t \<in> set st
      then Suc (length (takeWhile (\<lambda>t. t \<notin> set st) ts))
      else length ts)"
  by (induction ts) (auto simp: case_prod_beta)

lemma set_tags:
  "set (tags w) =
     {(p, a, l). p \<in> set (split_on CHR ''.'' (py_version w)) \<and>
                 a \<in> set (split_on CHR ''.'' (abi w)) \<and>
                 l \<in> set (split_on CHR ''.'' (platform w))}"
  by (auto simp: tags_def)

lemma tags_nonempty: "tags w \<noteq> []"
proof -
  obtain p where p: "p \<in> set (split_on CHR ''.'' (py_version w))"
    using split_on_nonempty [of "CHR ''.''" "py_version w"] by (cases "split_on CHR ''.'' (py_version w)") auto
  obtain a where a: "a \<in> set (split_on CHR ''.'' (abi w))"
    using split_on_nonempty [of "CHR ''.''" "abi w"] by (cases "split_on CHR ''.'' (abi w)") auto
  obtain l where l: "l \<in> set (split_on CHR ''.'' (platform w))"
    using split_on_nonempty [of "CHR ''.''" "platform w"] by (cases "split_on CHR ''.'' (platform w)") auto
  from p a l have "(p, a, l) \<in> set (tags w)" by (simp add: set_tags)
  then show ?thesis by auto
qed

lemma concat_map_nth:
  "(\<And>x. x \<in> set xs \<Longrightarrow> length (f x) = n) \<Longrightarrow> i < length xs \<Longrightarrow> j < n \<Longrightarrow>
   concat (map f xs) ! (i * n + j) = f (xs ! i) ! j"
proof (induction xs arbitrary: i)
  case Nil
  then show ?case by simp
next
  case (Cons x xs)
  show ?case
  proof (cases i)
    case 0
    with Cons.prems show ?thesis by (simp add: nth_append)
  next
    case (Suc k)
    have "concat (map f xs) ! (k * n + j) = f (xs ! k) ! j"
      using Cons.prems Suc by (intro Cons.IH) auto
    moreover have "length (f x) = n" using Cons.prems by simp
    ultimately show ?thesis using Suc by (simp add: nth_append)
  qed
qed

lemma length_concat_map_const:
  "(\<And>x. x \<in> set xs \<Longrightarrow> length (f x) = n) \<Longrightarrow> length (concat (map f xs)) = length xs * n"
  by (induction xs) auto

lemma product3_nth:
  assumes "i < length ps" and "j < length as" and "k < length ls"
  shows "concat (map (\<lambda>p. concat (map (\<lambda>a. map (\<lambda>l. (p, a, l)) ls) as)) ps) !
           ((i * length as + j) * length ls + k) = (ps ! i, as ! j, ls ! k)"
proof -
  let ?inner = "\<lambda>p a. map (\<lambda>l. (p, a, l)) ls"
  let ?mid = "\<lambda>p. concat (map (?inner p) as)"
  have len_mid: "length (?mid p) = length as * length ls" for p
    by (rule length_concat_map_const) simp
  have bound: "j * length ls + k < length as * length ls"
  proof -
    have "j * length ls + k < Suc j * length ls" using assms(3) by simp
    also have "\<dots> \<le> length as * length ls" using assms(2) by (intro mult_le_mono1) simp
    finally show ?thesis .
  qed
  have idx: "(i * length as + j) * length ls + k = i * (length as * length ls) + (j * length ls + k)"
    by (simp add: algebra_simps)
  have "concat (map ?mid ps) ! (i * (length as * length ls) + (j * length ls + k)) =
          ?mid (ps ! i) ! (j * length ls + k)"
    using assms(1) bound len_mid by (intro concat_map_nth) auto
  also have "\<dots> = ?inner (ps ! i) (as ! j) ! k"
    using assms(2,3) by (intro concat_map_nth) auto
  also have "\<dots> = (ps ! i, as ! j, ls ! k)" using assms(3) by simp
  finally show ?thesis unfolding idx .
qed

subsection \<open>The file name pattern\<close>

lemma first_match_Some: "first_match f xs = Some y \<Longrightarrow> \<exists>x \<in> set xs. f x = Some y"
  by (induction xs) (auto split: option.splits)

lemma first_match_None: "first_match f xs = None \<longleftrightarrow> (\<forall>x \<in> set xs. f x = None)"
  by (induction xs) (auto split: option.splits)

lemma lit_Some: "lit c s = Some r \<longleftrightarrow> s = c # r"
  by (cases s) auto

lemma lazy_any_sound: "(p, r) \<in> set (lazy_any s) \<Longrightarrow> s = p @ r \<and> newline \<notin> set p"
  by (induction s arbitrary: p) (auto split: if_splits)

lemma lazy_some_sound:
  "(p, r) \<in> set (lazy_some s) \<Longrightarrow> s = p @ r \<and> p \<noteq> [] \<and> newline \<notin> set p"
  by (cases s) (auto split: if_splits dest: lazy_any_sound)

lemma digit_then_any_sound:
  "(p, r) \<in> set (digit_then_any s) \<Longrightarrow>
   s = p @ r \<and> p \<noteq> [] \<and> is_digit (hd p) \<and> newline \<notin> set p"
  by (cases s) (auto split: if_splits dest: lazy_any_sound simp: is_digit_def newline_def)

lemma lazy_any_complete: "newline \<notin> set p \<Longrightarrow> (p, r) \<in> set (lazy_any (p @ r))"
proof (induction p)
  case Nil
  show ?case by (cases r) auto
next
  case (Cons c p)
  then show ?case by (auto simp: image_iff intro!: bexI [where x = "(p, r)"])
qed

lemma lazy_some_complete:
  "p \<noteq> [] \<Longrightarrow> newline \<notin> set p \<Longrightarrow> (p, r) \<in> set (lazy_some (p @ r))"
  by (cases p) (auto simp: image_iff lazy_any_complete intro!: bexI [where x = "(tl p, r)"])

lemma digit_then_any_complete:
  "p \<noteq> [] \<Longrightarrow> is_digit (hd p) \<Longrightarrow> newline \<notin> set p \<Longrightarrow>
   (p, r) \<in> set (digit_then_any (p @ r))"
  by (cases p) (auto simp: image_iff lazy_any_complete intro!: bexI [where x = "(tl p, r)"])

lemma match_tags_sound:
  assumes "match_tags r = Some (py, ab, pl)"
  shows "\<exists>e. r = CHR ''-'' # py @ CHR ''-'' # ab @ CHR ''-'' # pl @ e \<and> whl_end e \<and>
             field_ok py \<and> field_ok ab \<and> field_ok pl"
proof -
  from assms obtain r1 where r1: "r = CHR ''-'' # r1"
    and m1: "first_match (\<lambda>(py, r2).
        case lit CHR ''-'' r2 of None \<Rightarrow> None | Some r3 \<Rightarrow>
        first_match (\<lambda>(ab, r4).
          case lit CHR ''-'' r4 of None \<Rightarrow> None | Some r5 \<Rightarrow>
          first_match (\<lambda>(pl, r6). if whl_end r6 then Some (py, ab, pl) else None)
            (lazy_some r5))
          (lazy_some r3))
        (lazy_some r1) = Some (py, ab, pl)"
    by (auto simp: match_tags_def lit_Some split: option.splits)
  from first_match_Some [OF m1] obtain py' r2 r3 where
    c1: "(py', r2) \<in> set (lazy_some r1)" and r2: "r2 = CHR ''-'' # r3"
    and m2: "first_match (\<lambda>(ab, r4).
          case lit CHR ''-'' r4 of None \<Rightarrow> None | Some r5 \<Rightarrow>
          first_match (\<lambda>(pl, r6). if whl_end r6 then Some (py', ab, pl) else None)
            (lazy_some r5))
          (lazy_some r3) = Some (py, ab, pl)"
    by (auto simp: lit_Some split: option.splits)
  from first_match_Some [OF m2] obtain ab' r4 r5 where
    c2: "(ab', r4) \<in> set (lazy_some r3)" and r4: "r4 = CHR ''-'' # r5"
    and m3: "first_match (\<lambda>(pl, r6). if whl_end r6 then Some (py', ab', pl) else None)
            (lazy_some r5) = Some (py, ab, pl)"
    by (auto simp: lit_Some split: option.splits)
  from first_match_Some [OF m3] obtain pl' r6 where
    c3: "(pl', r6) \<in> set (lazy_some r5)" and e: "whl_end r6"
    and eq: "py' = py" "ab' = ab" "pl' = pl"
    by (auto split: if_splits)
  from lazy_some_sound [OF c1] lazy_some_sound [OF c2] lazy_some_sound [OF c3] r1 r2 r4 e eq
  show ?thesis by (auto simp: field_ok_def)
qed

lemma first_match_not_None: "x \<in> set xs \<Longrightarrow> f x \<noteq> None \<Longrightarrow> first_match f xs \<noteq> None"
  by (auto simp: first_match_None)

lemma match_tags_complete:
  assumes "field_ok py" "field_ok ab" "field_ok pl" "whl_end e"
  shows "match_tags (CHR ''-'' # py @ CHR ''-'' # ab @ CHR ''-'' # pl @ e) \<noteq> None"
proof -
  have c3: "(pl, e) \<in> set (lazy_some (pl @ e))"
    using assms by (simp add: field_ok_def lazy_some_complete)
  have c2: "(ab, CHR ''-'' # pl @ e) \<in> set (lazy_some (ab @ CHR ''-'' # pl @ e))"
    using assms by (simp add: field_ok_def lazy_some_complete)
  have c1: "(py, CHR ''-'' # ab @ CHR ''-'' # pl @ e) \<in>
              set (lazy_some (py @ CHR ''-'' # ab @ CHR ''-'' # pl @ e))"
    using assms by (simp add: field_ok_def lazy_some_complete)
  have m3: "first_match (\<lambda>(pl, r6). if whl_end r6 then Some (p, a, pl) else None)
              (lazy_some (pl @ e)) \<noteq> None" for p a :: string
    by (rule first_match_not_None [OF c3]) (simp add: assms)
  have m2: "first_match (\<lambda>(ab, r4).
          case lit CHR ''-'' r4 of None \<Rightarrow> None | Some r5 \<Rightarrow>
          first_match (\<lambda>(pl, r6). if whl_end r6 then Some (p, ab, pl) else None)
            (lazy_some r5))
          (lazy_some (ab @ CHR ''-'' # pl @ e)) \<noteq> None" for p :: string
    by (rule first_match_not_None [OF c2]) (simp add: m3)
  have m1: "first_match (\<lambda>(py, r2).
        case lit CHR ''-'' r2 of None \<Rightarrow> None | Some r3 \<Rightarrow>
        first_match (\<lambda>(ab, r4).
          case lit CHR ''-'' r4 of None \<Rightarrow> None | Some r5 \<Rightarrow>
          first_match (\<lambda>(pl, r6). if whl_end r6 then Some (py, ab, pl) else None)
            (lazy_some r5))
          (lazy_some r3))
        (lazy_some (py @ CHR ''-'' # ab @ CHR ''-'' # pl @ e)) \<noteq> None"
    by (rule first_match_not_None [OF c1]) (simp add: m2)
  then show ?thesis
    by (simp add: match_tags_def)
qed

lemma match_build_tags_sound:
  assumes "match_build_tags r = Some (b, py, ab, pl)"
  shows "\<exists>e. r = (case b of None \<Rightarrow> [] | Some x \<Rightarrow> CHR ''-'' # x) @
                 CHR ''-'' # py @ CHR ''-'' # ab @ CHR ''-'' # pl @ e \<and> whl_end e \<and>
             (case b of None \<Rightarrow> True | Some x \<Rightarrow> field_ok x \<and> is_digit (hd x)) \<and>
             field_ok py \<and> field_ok ab \<and> field_ok pl"
proof (cases b)
  case None
  with assms have "match_tags r = Some (py, ab, pl)"
    by (auto simp: match_build_tags_def split: option.splits dest!: first_match_Some)
  from match_tags_sound [OF this] None show ?thesis by simp
next
  case (Some x)
  with assms obtain r1 where r1: "r = CHR ''-'' # r1"
    and m: "first_match (\<lambda>(b, r2).
                case match_tags r2 of None \<Rightarrow> None | Some t \<Rightarrow> Some (Some b, t))
                (digit_then_any r1) = Some (Some x, py, ab, pl)"
    by (auto simp: match_build_tags_def lit_Some split: option.splits)
  from first_match_Some [OF m] obtain r2 where
    c: "(x, r2) \<in> set (digit_then_any r1)" and t: "match_tags r2 = Some (py, ab, pl)"
    by (auto split: option.splits)
  from digit_then_any_sound [OF c] match_tags_sound [OF t] r1 Some
  show ?thesis by (auto simp: field_ok_def)
qed

lemma match_build_tags_complete:
  assumes "case b of None \<Rightarrow> True | Some x \<Rightarrow> field_ok x \<and> is_digit (hd x)"
    and "field_ok py" "field_ok ab" "field_ok pl" "whl_end e"
  shows "match_build_tags ((case b of None \<Rightarrow> [] | Some x \<Rightarrow> CHR ''-'' # x) @
           CHR ''-'' # py @ CHR ''-'' # ab @ CHR ''-'' # pl @ e) \<noteq> None"
proof (cases b)
  case None
  with match_tags_complete [OF assms(2-5)] show ?thesis
    by (auto simp: match_build_tags_def split: option.splits)
next
  case (Some x)
  let ?t = "CHR ''-'' # py @ CHR ''-'' # ab @ CHR ''-'' # pl @ e"
  have c: "(x, ?t) \<in> set (digit_then_any (x @ ?t))"
    using assms(1) Some by (simp add: field_ok_def digit_then_any_complete)
  have "first_match (\<lambda>(b, r2).
                case match_tags r2 of None \<Rightarrow> None | Some t \<Rightarrow> Some (Some b, t))
                (digit_then_any (x @ ?t)) \<noteq> None"
    using match_tags_complete [OF assms(2-5)]
    by (intro first_match_not_None [OF c]) auto
  then show ?thesis using Some
    by (auto simp: match_build_tags_def split: option.splits)
qed

lemma WHEEL_NAME_sound:
  assumes "WHEEL_NAME s = Some g"
  shows "\<exists>e. grammar s g e \<and> whl_end e"
proof -
  obtain pn ver b py ab pl where g: "g = (pn, ver, b, py, ab, pl)" by (cases g) auto
  from assms [unfolded WHEEL_NAME_def g, THEN first_match_Some] obtain pn' r0 r1 where
    c1: "(pn', r0) \<in> set (lazy_some s)" and r0: "r0 = CHR ''-'' # r1"
    and m: "first_match (\<lambda>(ver, r2).
         case match_build_tags r2 of None \<Rightarrow> None
         | Some (b, py, ab, pl) \<Rightarrow> Some (pn', ver, b, py, ab, pl))
         (digit_then_any r1) = Some (pn, ver, b, py, ab, pl)"
    by (auto simp: lit_Some split: option.splits)
  from first_match_Some [OF m] obtain ver' r2 where
    c2: "(ver', r2) \<in> set (digit_then_any r1)"
    and t: "match_build_tags r2 = Some (b, py, ab, pl)" and eq: "pn' = pn" "ver' = ver"
    by (auto split: option.splits)
  from lazy_some_sound [OF c1] digit_then_any_sound [OF c2] match_build_tags_sound [OF t] r0 eq g
  show ?thesis by (auto simp: grammar_def field_ok_def)
qed

lemma WHEEL_NAME_complete:
  assumes "grammar s g e" and "whl_end e"
  shows "WHEEL_NAME s \<noteq> None"
proof -
  obtain pn ver b py ab pl where g: "g = (pn, ver, b, py, ab, pl)" by (cases g) auto
  let ?t = "(case b of None \<Rightarrow> [] | Some x \<Rightarrow> CHR ''-'' # x) @
              CHR ''-'' # py @ CHR ''-'' # ab @ CHR ''-'' # pl @ e"
  from assms g have s: "s = pn @ CHR ''-'' # ver @ ?t"
    and ok: "field_ok pn" "field_ok ver" "is_digit (hd ver)"
      "case b of None \<Rightarrow> True | Some x \<Rightarrow> field_ok x \<and> is_digit (hd x)"
      "field_ok py" "field_ok ab" "field_ok pl"
    by (auto simp: grammar_def)
  have c1: "(pn, CHR ''-'' # ver @ ?t) \<in> set (lazy_some s)"
    unfolding s using ok(1) by (simp add: field_ok_def lazy_some_complete)
  have c2: "(ver, ?t) \<in> set (digit_then_any (ver @ ?t))"
    using ok(2,3) by (simp add: field_ok_def digit_then_any_complete)
  have m: "first_match (\<lambda>(ver, r2).
         case match_build_tags r2 of None \<Rightarrow> None
         | Some (b, py, ab, pl) \<Rightarrow> Some (pn, ver, b, py, ab, pl))
         (digit_then_any (ver @ ?t)) \<noteq> None"
    using match_build_tags_complete [OF ok(4-7) assms(2)]
    by (intro first_match_not_None [OF c2]) auto
  show ?thesis
    unfolding WHEEL_NAME_def
    by (rule first_match_not_None [OF c1]) (simp add: m)
qed

text \<open>
  C1. \<open>is_compatible\<close> is true exactly when some triple of the cross product of the split
  \<open>py_version\<close>, \<open>abi\<close> and \<open>platform\<close> is among the supported tags. The iteration stops
  at the first supported triple: it draws one triple more than the unsupported ones that
  come first, and all of them only when none is supported. The triples come with
  \<open>py_version\<close> outermost and \<open>platform\<close> innermost. The function returns the truth value
  and nothing else: it has no state to change.
\<close>

theorem is_compatible_cross_product:
  "(is_compatible supported_tags w \<longleftrightarrow>
      (\<exists>p \<in> set (split_on CHR ''.'' (py_version w)).
       \<exists>a \<in> set (split_on CHR ''.'' (abi w)).
       \<exists>l \<in> set (split_on CHR ''.'' (platform w)). (p, a, l) \<in> set supported_tags)) \<and>
   tags_drawn supported_tags w =
     (if is_compatible supported_tags w
      then Suc (length (takeWhile (\<lambda>t. t \<notin> set supported_tags) (tags w)))
      else length (tags w)) \<and>
   (\<forall>i j k. i < length (split_on CHR ''.'' (py_version w)) \<and>
            j < length (split_on CHR ''.'' (abi w)) \<and>
            k < length (split_on CHR ''.'' (platform w)) \<longrightarrow>
      tags w ! ((i * length (split_on CHR ''.'' (abi w)) + j) *
                  length (split_on CHR ''.'' (platform w)) + k) =
        (split_on CHR ''.'' (py_version w) ! i,
         split_on CHR ''.'' (abi w) ! j,
         split_on CHR ''.'' (platform w) ! k))"
proof (intro conjI allI impI)
  show "is_compatible supported_tags w \<longleftrightarrow>
      (\<exists>p \<in> set (split_on CHR ''.'' (py_version w)).
       \<exists>a \<in> set (split_on CHR ''.'' (abi w)).
       \<exists>l \<in> set (split_on CHR ''.'' (platform w)). (p, a, l) \<in> set supported_tags)"
    unfolding is_compatible_def next_true_fst set_tags by auto
  show "tags_drawn supported_tags w =
     (if is_compatible supported_tags w
      then Suc (length (takeWhile (\<lambda>t. t \<notin> set supported_tags) (tags w)))
      else length (tags w))"
    unfolding is_compatible_def tags_drawn_def next_true_fst next_true_snd ..
next
  fix i j k
  assume "i < length (split_on CHR ''.'' (py_version w)) \<and>
            j < length (split_on CHR ''.'' (abi w)) \<and>
            k < length (split_on CHR ''.'' (platform w))"
  then show "tags w ! ((i * length (split_on CHR ''.'' (abi w)) + j) *
                  length (split_on CHR ''.'' (platform w)) + k) =
        (split_on CHR ''.'' (py_version w) ! i,
         split_on CHR ''.'' (abi w) ! j,
         split_on CHR ''.'' (platform w) ! k)"
    unfolding tags_def by (intro product3_nth) auto
qed

theorem is_compatible_cross_product_witness:
  "is_compatible [(''py3'', ''none'', ''any'')] foo_wheel \<and>
   tags_drawn [(''py3'', ''none'', ''any'')] foo_wheel = 2 \<and>
   tags foo_wheel ! 1 = (''py3'', ''none'', ''any'') \<and>
   \<not> is_compatible [(''py2'', ''cp27'', ''manylinux1_x86_64'')] foo_wheel"
  using is_compatible_cross_product [of "[(''py3'', ''none'', ''any'')]" foo_wheel]
    is_compatible_cross_product [of "[(''py2'', ''cp27'', ''manylinux1_x86_64'')]" foo_wheel]
  by (simp add: tags_def foo_wheel_def)

subsection \<open>Construction\<close>

lemma Wheel_init_Inr:
  "Wheel_init fname = Inr w \<longleftrightarrow>
     (\<exists>pn ver b py ab pl. WHEEL_NAME (basename fname) = Some (pn, ver, b, py, ab, pl) \<and>
        w = \<lparr>filename = fname, project_name = pn, version = ver, build = b,
             py_version = py, abi = ab, platform = pl\<rparr>)"
  by (auto simp: Wheel_init_def split: option.splits)

lemma Wheel_init_matches:
  "(\<exists>w. Wheel_init fname = Inr w) \<longleftrightarrow> (\<exists>g e. grammar (basename fname) g e \<and> whl_end e)"
proof
  assume "\<exists>w. Wheel_init fname = Inr w"
  then obtain g where "WHEEL_NAME (basename fname) = Some g"
    by (auto simp: Wheel_init_Inr)
  from WHEEL_NAME_sound [OF this] show "\<exists>g e. grammar (basename fname) g e \<and> whl_end e"
    by blast
next
  assume "\<exists>g e. grammar (basename fname) g e \<and> whl_end e"
  then have "WHEEL_NAME (basename fname) \<noteq> None"
    using WHEEL_NAME_complete by blast
  then show "\<exists>w. Wheel_init fname = Inr w"
    by (auto simp: Wheel_init_def split: option.splits)
qed

lemma Wheel_init_Inl:
  "Wheel_init fname = Inl e \<Longrightarrow> e = InvalidWheelName fname"
  by (auto simp: Wheel_init_def split: option.splits)

text \<open>
  C9. A wheel that \<open>Wheel_init\<close> has constructed has non-empty \<open>py_version\<close>, \<open>abi\<close> and
  \<open>platform\<close> fields, and its \<open>tags\<close> are never the empty sequence.
\<close>

theorem constructed_wheel_has_tags:
  assumes "Wheel_init fname = Inr w"
  shows "py_version w \<noteq> [] \<and> abi w \<noteq> [] \<and> platform w \<noteq> [] \<and> tags w \<noteq> []"
proof -
  from assms obtain pn ver b py ab pl where
    m: "WHEEL_NAME (basename fname) = Some (pn, ver, b, py, ab, pl)"
    and w: "w = \<lparr>filename = fname, project_name = pn, version = ver, build = b,
             py_version = py, abi = ab, platform = pl\<rparr>"
    by (auto simp: Wheel_init_Inr)
  from WHEEL_NAME_sound [OF m] have "field_ok py" "field_ok ab" "field_ok pl"
    by (auto simp: grammar_def)
  with w tags_nonempty [of w] show ?thesis by (simp add: field_ok_def)
qed

theorem constructed_wheel_has_tags_witness:
  "Wheel_init ''dist/foo-1.0-py2.py3-none-any.whl'' =
     Inr (foo_wheel\<lparr>filename := ''dist/foo-1.0-py2.py3-none-any.whl''\<rparr>) \<and>
   tags (foo_wheel\<lparr>filename := ''dist/foo-1.0-py2.py3-none-any.whl''\<rparr>) \<noteq> []"
proof -
  have h: "Wheel_init ''dist/foo-1.0-py2.py3-none-any.whl'' =
     Inr (foo_wheel\<lparr>filename := ''dist/foo-1.0-py2.py3-none-any.whl''\<rparr>)"
    by (simp add: Wheel_init_def basename_def WHEEL_NAME_def match_build_tags_def
        match_tags_def whl_end_def newline_def is_digit_def foo_wheel_def)
  from constructed_wheel_has_tags [OF h] h show ?thesis by simp
qed

text \<open>
  C4. The match is not anchored to the whole base name: a base name that ends in a line
  feed after \<^verbatim>\<open>.whl\<close> is accepted, although it does not end in \<^verbatim>\<open>.whl\<close>, because
  \<^verbatim>\<open>$\<close> also matches before a final line feed.
\<close>

theorem wheel_name_accepts_trailing_line_feed:
  "Wheel_init (''foo-1.0-py2.py3-none-any.whl'' @ [newline]) =
     Inr (foo_wheel\<lparr>filename := ''foo-1.0-py2.py3-none-any.whl'' @ [newline]\<rparr>) \<and>
   \<not> endswith (basename (''foo-1.0-py2.py3-none-any.whl'' @ [newline])) ''.whl''"
  by (simp add: Wheel_init_def basename_def WHEEL_NAME_def match_build_tags_def
      match_tags_def whl_end_def newline_def is_digit_def endswith_def suffix_to_prefix
      foo_wheel_def)

text \<open>
  C7. The legacy name is the project name, the version and, unless the platform field of
  the wheel is \<^verbatim>\<open>any\<close>, the platform of the host, joined by hyphens and followed by
  \<^verbatim>\<open>.egg\<close>.
\<close>

theorem egg_name_legacy_format:
  "egg_name get_platform w =
     project_name w @ ''-'' @ version w @
     (if platform w = ''any'' then [] else ''-'' @ get_platform) @ ''.egg'' \<and>
   egg_name get_platform foo_wheel = ''foo-1.0.egg'' \<and>
   egg_name get_platform (foo_wheel\<lparr>platform := ''linux_x86_64''\<rparr>) =
     ''foo-1.0-'' @ get_platform @ ''.egg''"
  by (simp add: egg_name_def Distribution_egg_name_def foo_wheel_def)

subsection \<open>The metadata directory\<close>






subsection \<open>The format version\<close>

lemma parse_bounds:
  "parse_version ''1.0'' = Version [1, 0] None None None"
  "parse_version ''2.0dev0'' = Version [2, 0] None None (Some 0)"
  by (simp_all add: parse_version_def parse_pre_def parse_post_def parse_dev_def
      tagged_number_def is_digit_def nat_of_digits_def digit_val_def)

text \<open>
  C2. The version check accepts exactly the versions from \<^verbatim>\<open>1.0\<close> up to but not
  including \<^verbatim>\<open>2.0dev0\<close> and rejects every other with the error for an unsupported
  version: \<^verbatim>\<open>1.0\<close> and \<^verbatim>\<open>1.9\<close> are accepted, \<^verbatim>\<open>0.9\<close>, \<^verbatim>\<open>2.0\<close> and
  \<^verbatim>\<open>2.0dev0\<close> are rejected.
\<close>

theorem wheel_version_range:
  "(check_wheel_version v = Inr () \<longleftrightarrow>
      version_le (Version [1, 0] None None None) (parse_version v) \<and>
      version_less (parse_version v) (Version [2, 0] None None (Some 0))) \<and>
   (check_wheel_version v = Inr () \<or> check_wheel_version v = Inl (UnsupportedWheelVersion v)) \<and>
   check_wheel_version ''1.0'' = Inr () \<and>
   check_wheel_version ''1.9'' = Inr () \<and>
   check_wheel_version ''0.9'' = Inl (UnsupportedWheelVersion ''0.9'') \<and>
   check_wheel_version ''2.0'' = Inl (UnsupportedWheelVersion ''2.0'') \<and>
   check_wheel_version ''2.0dev0'' = Inl (UnsupportedWheelVersion ''2.0dev0'')"
proof (intro conjI)
  show "check_wheel_version v = Inr () \<longleftrightarrow>
      version_le (Version [1, 0] None None None) (parse_version v) \<and>
      version_less (parse_version v) (Version [2, 0] None None (Some 0))"
    by (simp add: check_wheel_version_def wheel_v1_def parse_bounds)
  show "check_wheel_version v = Inr () \<or> check_wheel_version v = Inl (UnsupportedWheelVersion v)"
    by (simp add: check_wheel_version_def)
qed (simp_all add: check_wheel_version_def wheel_v1_def parse_version_def parse_pre_def
      parse_post_def parse_dev_def tagged_number_def is_digit_def nat_of_digits_def
      digit_val_def version_le_def version_less_def)

subsection \<open>Requirements\<close>

lemma raw_req_text: "raw_req r = req_text r"
  by (simp add: raw_req_def req_str_def)

lemma extras_require_fold:
  "fold (\<lambda>extra m. m(extra \<mapsto> f extra)) es m0 =
     (\<lambda>e. if e \<in> set es then Some (f e) else m0 e)"
  by (induction es arbitrary: m0) (auto simp: fun_eq_iff)

lemma extras_require_eq:
  "extras_require d e = (if e \<in> set (extras d) then Some (extra_reqs d e) else None)"
  by (simp add: extras_require_def extras_require_fold)

text \<open>
  C5. The rendering of a requirement does not depend on its marker; the base list is
  sorted and holds the renderings of the base requirements; every declared extra has a
  sorted list, which holds the renderings of its requirements that are not in the base
  list. With the base requirement \<^verbatim>\<open>a>=1\<close> and the requirements \<^verbatim>\<open>a>=1\<close> and \<^verbatim>\<open>b\<close>
  of the extra \<^verbatim>\<open>test\<close>, the list of the extra is \<^verbatim>\<open>b\<close> alone.
\<close>

theorem requirement_normalisation:
  "raw_req (r\<lparr>marker := m\<rparr>) = raw_req r \<and>
   raw_req r = req_str (r\<lparr>marker := None\<rparr>) \<and>
   sorted (install_requires d) \<and>
   set (install_requires d) = raw_req ` set (requires d []) \<and>
   length (install_requires d) = length (requires d []) \<and>
   dom (extras_require d) = set (extras d) \<and>
   (\<forall>extra \<in> set (extras d). \<exists>l.
      extras_require d extra = Some l \<and> sorted l \<and>
      set l = raw_req ` set (requires d [extra]) - set (install_requires d)) \<and>
   install_requires test_dist = [''a>=1''] \<and>
   extras_require test_dist ''test'' = Some [''b'']"
proof (intro conjI ballI)
  show "dom (extras_require d) = set (extras d)"
    by (auto simp: extras_require_eq dom_def)
next
  fix extra assume "extra \<in> set (extras d)"
  then show "\<exists>l. extras_require d extra = Some l \<and> sorted l \<and>
      set l = raw_req ` set (requires d [extra]) - set (install_requires d)"
    by (auto simp: extras_require_eq extra_reqs_def)
qed (auto simp: raw_req_def req_str_def install_requires_def extras_require_eq extra_reqs_def
      test_dist_def)

theorem requirement_normalisation_witness:
  "install_requires marked_dist = [''a>=1'', ''b''] \<and>
   extras_require marked_dist ''test'' = Some [''c'', ''d'']"
  using requirement_normalisation
    [where r = "\<lparr>req_text = ''b'', marker = Some ''python_version < \"3\"''\<rparr>"
       and m = None and d = marked_dist]
  by (simp add: raw_req_def req_str_def install_requires_def extras_require_eq extra_reqs_def
      marked_dist_def)

subsection \<open>The file system\<close>

lemma lookup_append:
  "lookup t (p @ q) = (case lookup t p of None \<Rightarrow> None | Some n \<Rightarrow> lookup n q)"
proof (induction p arbitrary: t)
  case Nil
  show ?case by simp
next
  case (Cons c p)
  show ?case by (cases t) (auto simp: Cons.IH split: option.splits)
qed

lemma focus_eq:
  "lookup t p = Some n \<Longrightarrow>
   focus p g t = (case g n of Inl e \<Rightarrow> Inl e | Inr n' \<Rightarrow> Inr (replace_at p n' t))"
proof (induction p arbitrary: t)
  case Nil
  then show ?case by (simp split: sum.splits)
next
  case (Cons c p)
  then show ?case by (cases t) (auto split: option.splits sum.splits)
qed

lemma focus_missing: "lookup t p = None \<Longrightarrow> \<exists>e. focus p g t = Inl e"
proof (induction p arbitrary: t)
  case Nil
  then show ?case by simp
next
  case (Cons c p)
  show ?case
  proof (cases t)
    case (File x)
    then show ?thesis by simp
  next
    case (Dir es)
    show ?thesis
    proof (cases "map_of es c")
      case None
      with Dir show ?thesis by simp
    next
      case (Some n)
      with Cons.prems Dir have "lookup n p = None" by simp
      from Cons.IH [OF this] obtain e where "focus p g n = Inl e" by blast
      with Dir Some show ?thesis by simp
    qed
  qed
qed

lemma lookup_replace_same:
  "lookup t p \<noteq> None \<Longrightarrow> lookup (replace_at p n' t) (p @ q) = lookup n' q"
proof (induction p arbitrary: t)
  case Nil
  show ?case by simp
next
  case (Cons c p)
  then show ?case by (cases t) (auto simp: update_conv' split: option.splits)
qed

lemma lookup_replace_other:
  "\<not> prefix p q \<Longrightarrow> \<not> prefix q p \<Longrightarrow> lookup (replace_at p n' t) q = lookup t q"
proof (induction p arbitrary: t q)
  case Nil
  then show ?case by simp
next
  case (Cons c p)
  from Cons.prems obtain d q' where q: "q = d # q'" by (cases q) auto
  show ?case
  proof (cases t)
    case (File x)
    then show ?thesis by simp
  next
    case (Dir es)
    show ?thesis
    proof (cases "map_of es c")
      case None
      with Dir show ?thesis by simp
    next
      case (Some n)
      show ?thesis
      proof (cases "d = c")
        case True
        with Cons.prems q have "\<not> prefix p q'" "\<not> prefix q' p" by auto
        from Cons.IH [OF this] Dir Some True q show ?thesis
          by (simp add: update_conv')
      next
        case False
        with Dir Some q show ?thesis by (simp add: update_conv')
      qed
    qed
  qed
qed

lemma in_dir_eq:
  "lookup t p = Some (Dir es) \<Longrightarrow>
   in_dir p f t = (case f es of Inl e \<Rightarrow> Inl e | Inr es' \<Rightarrow> Inr (replace_at p (Dir es') t))"
  by (simp add: in_dir_def focus_eq on_entries_def split: sum.splits)

lemma in_dir_file: "lookup t p = Some (File x) \<Longrightarrow> in_dir p f t = Inl (OSError ENOTDIR)"
  by (simp add: in_dir_def focus_eq on_entries_def)

lemma in_dir_missing: "lookup t p = None \<Longrightarrow> \<exists>e. in_dir p f t = Inl e"
  by (simp add: in_dir_def focus_missing)

subsection \<open>Relocating the scripts\<close>

lemma update_new: "map_of al k = None \<Longrightarrow> AList.update k v al = al @ [(k, v)]"
  by (induction al) (auto split: if_splits)

lemma delete_head: "k \<notin> fst ` set al \<Longrightarrow> AList.delete k ((k, v) # al) = al"
  by (simp add: delete_id)

lemma unlink_at:
  assumes "lookup (root s) S = Some (Dir es)"
  shows "sys (Unlink (S @ [n])) s =
     (case map_of es n of
        None \<Rightarrow> (Inl (OSError ENOENT), s)
      | Some (Dir _) \<Rightarrow> (Inl (OSError EISDIR), s)
      | Some (File _) \<Rightarrow>
          (Inr (), FS (replace_at S (Dir (AList.delete n es)) (root s))
                      (journal s @ [Unlink (S @ [n])])))"
  using assms
  by (simp add: sys_def os_unlink_def in_dir_eq unlink_entry_def
      split: option.splits node.splits)

lemma rename_at:
  assumes S: "lookup (root s) S = Some (Dir es)" and x: "map_of es n = Some x"
    and E: "lookup (root s) E = Some (Dir acc)" and new: "map_of acc n = None"
    and SE: "\<not> prefix S E" and ES: "\<not> prefix E S"
  shows "sys (Rename (S @ [n]) (E @ [n])) s =
     (Inr (), FS (replace_at E (Dir (acc @ [(n, x)]))
                    (replace_at S (Dir (AList.delete n es)) (root s)))
                 (journal s @ [Rename (S @ [n]) (E @ [n])]))"
proof -
  have src: "lookup (root s) (S @ [n]) = Some x"
    using S x by (simp add: lookup_append)
  have dst: "lookup (root s) (E @ [n]) = None"
    using E new by (simp add: lookup_append)
  have ne: "S @ [n] \<noteq> E @ [n]" using SE by auto
  have nsp: "\<not> strict_prefix (S @ [n]) (E @ [n])"
    using SE by (auto simp: strict_prefix_def prefix_snoc dest: append_prefixD)
  have E': "lookup (replace_at S (Dir (AList.delete n es)) (root s)) E = Some (Dir acc)"
    using E SE ES by (simp add: lookup_replace_other)
  show ?thesis
    using src dst ne nsp
    by (simp add: sys_def os_rename_def in_dir_eq [OF S] in_dir_eq [OF E'] update_new [OF new])
qed

lemma move_scripts_run:
  assumes "lookup (root s) S = Some (Dir es)" and "distinct (map fst es)"
    and "lookup (root s) E = Some (Dir acc)" and "\<forall>n \<in> fst ` set es. map_of acc n = None"
    and "\<not> prefix S E" and "\<not> prefix E S"
  shows "case move_scripts S E (map fst es) s of
           (Inl e, s') \<Rightarrow> \<exists>n x. (n, Dir x) \<in> set es \<and> endswith n ''.pyc''
         | (Inr u, s') \<Rightarrow>
             (\<forall>n x. (n, Dir x) \<in> set es \<longrightarrow> \<not> endswith n ''.pyc'') \<and>
             lookup (root s') S = Some (Dir []) \<and>
             lookup (root s') E =
               Some (Dir (acc @ filter (\<lambda>e. \<not> endswith (fst e) ''.pyc'') es)) \<and>
             (\<forall>q. \<not> prefix S q \<and> \<not> prefix q S \<and> \<not> prefix E q \<and> \<not> prefix q E \<longrightarrow>
                  lookup (root s') q = lookup (root s) q)"
  using assms
proof (induction es arbitrary: s acc)
  case Nil
  then show ?case by simp
next
  case (Cons a es)
  obtain n x where a: "a = (n, x)" by (cases a)
  from Cons.prems(2) a have fresh: "n \<notin> fst ` set es" and dist: "distinct (map fst es)"
    by auto
  have S: "lookup (root s) S = Some (Dir ((n, x) # es))" using Cons.prems(1) a by simp
  have del: "AList.delete n ((n, x) # es) = es" using fresh by (rule delete_head)
  show ?case
  proof (cases "endswith n ''.pyc''")
    case True
    show ?thesis
    proof (cases x)
      case (Dir ds)
      with True a S unlink_at [OF S, of n] show ?thesis by auto
    next
      case (File c)
      let ?s1 = "FS (replace_at S (Dir es) (root s)) (journal s @ [Unlink (S @ [n])])"
      have step: "sys (Unlink (S @ [n])) s = (Inr (), ?s1)"
        using unlink_at [OF S, of n] File del by simp
      have S1: "lookup (root ?s1) S = Some (Dir es)"
        using lookup_replace_same [of "root s" S "Dir es" "[]"] S by simp
      have E1: "lookup (root ?s1) E = Some (Dir acc)"
        using Cons.prems(3,5,6) by (simp add: lookup_replace_other)
      have fr: "\<forall>n \<in> fst ` set es. map_of acc n = None" using Cons.prems(4) by auto
      have frame: "lookup (root ?s1) q = lookup (root s) q" if "\<not> prefix S q" "\<not> prefix q S" for q
        using that by (simp add: lookup_replace_other)
      from Cons.IH [OF S1 dist E1 fr Cons.prems(5,6)] step True a File frame
      show ?thesis by (auto split: prod.splits sum.splits)
    qed
  next
    case False
    have new: "map_of acc n = None" using Cons.prems(4) a by simp
    let ?t1 = "replace_at S (Dir es) (root s)"
    let ?s1 = "FS (replace_at E (Dir (acc @ [(n, x)])) ?t1)
                  (journal s @ [Rename (S @ [n]) (E @ [n])])"
    have step: "sys (Rename (S @ [n]) (E @ [n])) s = (Inr (), ?s1)"
      using rename_at [OF S _ Cons.prems(3) new Cons.prems(5,6), of x] del by simp
    have E0: "lookup ?t1 E = Some (Dir acc)"
      using Cons.prems(3,5,6) by (simp add: lookup_replace_other)
    have S1: "lookup (root ?s1) S = Some (Dir es)"
      using lookup_replace_same [of "root s" S "Dir es" "[]"] S Cons.prems(5,6)
      by (simp add: lookup_replace_other)
    have E1: "lookup (root ?s1) E = Some (Dir (acc @ [(n, x)]))"
      using lookup_replace_same [of ?t1 E "Dir (acc @ [(n, x)])" "[]"] E0 by simp
    have fr: "\<forall>m \<in> fst ` set es. map_of (acc @ [(n, x)]) m = None"
      using Cons.prems(4) fresh by (auto simp: map_add_def split: option.splits)
    have frame: "lookup (root ?s1) q = lookup (root s) q"
      if "\<not> prefix S q" "\<not> prefix q S" "\<not> prefix E q" "\<not> prefix q E" for q
      using that by (simp add: lookup_replace_other)
    from Cons.IH [OF S1 dist E1 fr Cons.prems(5,6)] step False a frame
    show ?thesis by (auto split: prod.splits sum.splits)
  qed
qed

lemma lookup_snoc_Some:
  "lookup t (p @ [c]) = Some n \<Longrightarrow> \<exists>ds. lookup t p = Some (Dir ds) \<and> map_of ds c = Some n"
  by (cases "lookup t p"; cases "the (lookup t p)")
     (auto simp: lookup_append split: option.splits)

lemma mkdir_at:
  "sys (Mkdir (P @ [c])) s =
     (case lookup (root s) P of
        Some (Dir gs) \<Rightarrow>
          (case map_of gs c of
             None \<Rightarrow> (Inr (), FS (replace_at P (Dir (gs @ [(c, Dir [])])) (root s))
                               (journal s @ [Mkdir (P @ [c])]))
           | Some _ \<Rightarrow> (Inl (OSError EEXIST), s))
      | _ \<Rightarrow> (Inl (case os_mkdir (P @ [c]) (root s) of Inl e \<Rightarrow> e), s))"
proof (cases "lookup (root s) P")
  case None
  from in_dir_missing [OF this] obtain e where "in_dir P (mkdir_entry c) (root s) = Inl e"
    by blast
  with None show ?thesis by (simp add: sys_def os_mkdir_def)
next
  case (Some n)
  show ?thesis
  proof (cases n)
    case (File x)
    with Some show ?thesis by (simp add: sys_def os_mkdir_def in_dir_file)
  next
    case (Dir gs)
    with Some show ?thesis
      by (simp add: sys_def os_mkdir_def in_dir_eq mkdir_entry_def split: option.splits)
  qed
qed

lemma rmdir_at:
  assumes "lookup (root s) D = Some (Dir ds)" and "map_of ds c = Some (Dir [])"
  shows "sys (Rmdir (D @ [c])) s =
     (Inr (), FS (replace_at D (Dir (AList.delete c ds)) (root s))
                 (journal s @ [Rmdir (D @ [c])]))"
  using assms by (simp add: sys_def os_rmdir_def in_dir_eq rmdir_entry_def)

text \<open>Replacing the entries of a directory leaves every path alone that does not pass
  through an entry whose value has changed.\<close>

lemma replace_entries_frame:
  assumes P: "lookup t P = Some (Dir gs)"
    and same: "\<And>c. c \<noteq> k \<Longrightarrow> map_of gs' c = map_of gs c"
    and q: "\<not> prefix (P @ [k]) q" "\<not> prefix q (P @ [k])"
  shows "lookup (replace_at P (Dir gs') t) q = lookup t q"
proof (cases "prefix P q")
  case True
  then obtain r where r: "q = P @ r" by (auto simp: prefix_def)
  with q obtain c r' where cr: "r = c # r'" "c \<noteq> k" by (cases r) auto
  have "lookup (replace_at P (Dir gs') t) (P @ c # r') = lookup (Dir gs') (c # r')"
    using P by (intro lookup_replace_same) simp
  also have "\<dots> = lookup (Dir gs) (c # r')" using same [OF cr(2)] by simp
  also have "\<dots> = lookup t (P @ c # r')" using P by (simp add: lookup_append)
  finally show ?thesis using r cr by simp
next
  case False
  moreover have "\<not> prefix q P" using q(2) by (auto simp: prefix_snoc)
  ultimately show ?thesis by (rule lookup_replace_other)
qed

lemma dist_data_name_not_egg_info: "dist_data_name w \<noteq> ''EGG-INFO''"
proof
  assume "dist_data_name w = ''EGG-INFO''"
  then have "last (dist_data_name w) = last ''EGG-INFO''" by simp
  then show False by (simp add: dist_data_name_def)
qed

lemma install_scripts_run:
  assumes S0: "lookup (root s) (dest @ [dist_data_name w, ''scripts'']) = Some (Dir es)"
    and dist: "distinct (map fst es)"
  shows "case install_scripts w dest s of
           (Inl e, s') \<Rightarrow>
             \<not> ((\<exists>gs. lookup (root s) (dest @ [''EGG-INFO'']) = Some (Dir gs) \<and>
                      map_of gs ''scripts'' = None) \<and>
                (\<forall>n x. (n, Dir x) \<in> set es \<longrightarrow> \<not> endswith n ''.pyc''))
         | (Inr u, s') \<Rightarrow>
             (\<exists>gs. lookup (root s) (dest @ [''EGG-INFO'']) = Some (Dir gs) \<and>
                   map_of gs ''scripts'' = None) \<and>
             (\<forall>n x. (n, Dir x) \<in> set es \<longrightarrow> \<not> endswith n ''.pyc'') \<and>
             lookup (root s') (dest @ [''EGG-INFO'', ''scripts'']) =
               Some (Dir (filter (\<lambda>e. \<not> endswith (fst e) ''.pyc'') es)) \<and>
             lookup (root s') (dest @ [dist_data_name w, ''scripts'']) = None \<and>
             (\<forall>q. \<not> prefix (dest @ [dist_data_name w, ''scripts'']) q \<and>
                  \<not> prefix q (dest @ [dist_data_name w, ''scripts'']) \<and>
                  \<not> prefix (dest @ [''EGG-INFO'', ''scripts'']) q \<and>
                  \<not> prefix q (dest @ [''EGG-INFO'', ''scripts'']) \<longrightarrow>
                  lookup (root s') q = lookup (root s) q)"
proof -
  define dd where "dd = dist_data_name w"
  define D where "D = dest @ [dd]"
  define S where "S = dest @ [dd, ''scripts'']"
  define P where "P = dest @ [''EGG-INFO'']"
  define E where "E = dest @ [''EGG-INFO'', ''scripts'']"
  have dd: "dd \<noteq> ''EGG-INFO''" unfolding dd_def by (rule dist_data_name_not_egg_info)
  have SD: "S = D @ [''scripts'']" and EP: "E = P @ [''scripts'']"
    by (simp_all add: S_def D_def E_def P_def)
  have S: "lookup (root s) S = Some (Dir es)" using S0 by (simp add: S_def dd_def)
  have SE: "\<not> prefix S E" "\<not> prefix E S" using dd by (auto simp: S_def E_def)
  have DE: "\<not> prefix D E" "\<not> prefix E D" using dd by (auto simp: D_def E_def)
  have PS: "\<not> prefix E S" "\<not> prefix S E" using dd by (auto simp: S_def E_def)
  have ex: "os_path_exists S s" using S by (simp add: os_path_exists_def)
  have unf: "install_scripts w dest s =
      (case sys (Mkdir E) s of
         (Inl e, s1) \<Rightarrow> (Inl e, s1)
       | (Inr _, s1) \<Rightarrow>
           (case os_listdir S s1 of
              Inl e \<Rightarrow> (Inl e, s1)
            | Inr entries \<Rightarrow>
                (case move_scripts S E entries s1 of
                   (Inl e, s2) \<Rightarrow> (Inl e, s2)
                 | (Inr _, s2) \<Rightarrow> sys (Rmdir S) s2)))"
    unfolding install_scripts_def Let_def S_def E_def dd_def append_assoc append_Cons append_Nil
    using ex [unfolded S_def dd_def] by simp
  let ?pre = "(\<exists>gs. lookup (root s) P = Some (Dir gs) \<and> map_of gs ''scripts'' = None)"
  let ?files = "(\<forall>n x. (n, Dir x) \<in> set es \<longrightarrow> \<not> endswith n ''.pyc'')"
  have goal: "case install_scripts w dest s of
           (Inl e, s') \<Rightarrow> \<not> (?pre \<and> ?files)
         | (Inr u, s') \<Rightarrow>
             ?pre \<and> ?files \<and>
             lookup (root s') E = Some (Dir (filter (\<lambda>e. \<not> endswith (fst e) ''.pyc'') es)) \<and>
             lookup (root s') S = None \<and>
             (\<forall>q. \<not> prefix S q \<and> \<not> prefix q S \<and> \<not> prefix E q \<and> \<not> prefix q E \<longrightarrow>
                  lookup (root s') q = lookup (root s) q)"
  proof (cases "?pre")
    case False
    then have "\<exists>e. sys (Mkdir E) s = (Inl e, s)"
      unfolding EP mkdir_at [of P "''scripts''" s]
      by (auto split: option.splits node.splits)
    with False show ?thesis unfolding unf by auto
  next
    case True
    then obtain gs where P: "lookup (root s) P = Some (Dir gs)"
      and fresh: "map_of gs ''scripts'' = None" by blast
    let ?s1 = "FS (replace_at P (Dir (gs @ [(''scripts'', Dir [])])) (root s))
                  (journal s @ [Mkdir E])"
    have mk: "sys (Mkdir E) s = (Inr (), ?s1)"
      unfolding EP mkdir_at [of P "''scripts''" s] using P fresh by simp
    have frame1: "lookup (root ?s1) q = lookup (root s) q"
      if "\<not> prefix E q" "\<not> prefix q E" for q
    proof (unfold fs.sel, rule replace_entries_frame [OF P, where k = "''scripts''"])
      fix c :: string assume "c \<noteq> ''scripts''"
      then show "map_of (gs @ [(''scripts'', Dir [])]) c = map_of gs c"
        by (simp add: map_add_def split: option.splits)
    next
      show "\<not> prefix (P @ [''scripts'']) q" using that(1) by (simp add: EP)
    next
      show "\<not> prefix q (P @ [''scripts''])" using that(2) by (simp add: EP)
    qed
    have S1: "lookup (root ?s1) S = Some (Dir es)"
      using frame1 [of S] SE S by simp
    have E1: "lookup (root ?s1) E = Some (Dir [])"
      using lookup_replace_same [of "root s" P "Dir (gs @ [(''scripts'', Dir [])])" "[''scripts'']"]
        P fresh by (simp add: EP map_add_def)
    have ls: "os_listdir S ?s1 = Inr (map fst es)"
      using S1 by (simp add: os_listdir_def)
    have res: "install_scripts w dest s =
        (case move_scripts S E (map fst es) ?s1 of
           (Inl e, s2) \<Rightarrow> (Inl e, s2)
         | (Inr _, s2) \<Rightarrow> sys (Rmdir S) s2)"
      by (simp add: unf mk ls)
    note loop = move_scripts_run [OF S1 dist E1 _ SE, simplified]
    show ?thesis
    proof (cases "move_scripts S E (map fst es) ?s1")
      case (Pair r s2)
      show ?thesis
      proof (cases r)
        case (Inl e)
        with loop Pair show ?thesis unfolding res by auto
      next
        case (Inr u)
        with loop Pair have files: ?files
          and S2: "lookup (root s2) S = Some (Dir [])"
          and E2: "lookup (root s2) E = Some (Dir (filter (\<lambda>e. \<not> endswith (fst e) ''.pyc'') es))"
          and frame2: "\<And>q. \<not> prefix S q \<Longrightarrow> \<not> prefix q S \<Longrightarrow> \<not> prefix E q \<Longrightarrow> \<not> prefix q E \<Longrightarrow>
                  lookup (root s2) q = lookup (root ?s1) q"
          by auto
        from lookup_snoc_Some [OF S2 [unfolded SD]] obtain ds where
          D2: "lookup (root s2) D = Some (Dir ds)" and sc: "map_of ds ''scripts'' = Some (Dir [])"
          by blast
        let ?s3 = "FS (replace_at D (Dir (AList.delete ''scripts'' ds)) (root s2))
                      (journal s2 @ [Rmdir S])"
        have rm: "sys (Rmdir S) s2 = (Inr (), ?s3)"
          unfolding SD by (rule rmdir_at [OF D2 sc])
        have frame3: "lookup (root ?s3) q = lookup (root s2) q"
          if "\<not> prefix S q" "\<not> prefix q S" for q
        proof (unfold fs.sel, rule replace_entries_frame [OF D2, where k = "''scripts''"])
          fix c :: string assume "c \<noteq> ''scripts''"
          then show "map_of (AList.delete ''scripts'' ds) c = map_of ds c"
            by (simp add: delete_conv')
        next
          show "\<not> prefix (D @ [''scripts'']) q" using that(1) by (simp add: SD)
        next
          show "\<not> prefix q (D @ [''scripts''])" using that(2) by (simp add: SD)
        qed
        have S3: "lookup (root ?s3) S = None"
          using lookup_replace_same [of "root s2" D "Dir (AList.delete ''scripts'' ds)" "[''scripts'']"]
            D2 by (simp add: SD delete_conv')
        have E3: "lookup (root ?s3) E = Some (Dir (filter (\<lambda>e. \<not> endswith (fst e) ''.pyc'') es))"
          using frame3 [of E] SE E2 by simp
        have frame: "lookup (root ?s3) q = lookup (root s) q"
          if "\<not> prefix S q" "\<not> prefix q S" "\<not> prefix E q" "\<not> prefix q E" for q
          using that frame1 [of q] frame2 [of q] frame3 [of q] by simp
        show ?thesis
          unfolding res using Pair Inr rm True files S3 E3 frame by simp
      qed
    qed
  qed
  then show ?thesis
    unfolding S_def E_def P_def dd_def by simp
qed

lemma map_of_filter_fst:
  "map_of (filter (\<lambda>e. Q (fst e)) es) n = (if Q n then map_of es n else None)"
  by (induction es) auto

text \<open>
  C8. Let the data directory hold a \<^verbatim>\<open>scripts\<close> directory, which lists each of its
  entries once. The relocation completes exactly when \<^verbatim>\<open>EGG-INFO\<close> is a directory
  without an entry \<^verbatim>\<open>scripts\<close> and no entry that ends in \<^verbatim>\<open>.pyc\<close> is a directory;
  any other run ends in the \<^verbatim>\<open>OSError\<close> of the failing call. When it has completed,
  \<^verbatim>\<open>EGG-INFO/scripts\<close> is a new directory that holds exactly the entries that do not
  end in \<^verbatim>\<open>.pyc\<close>, in their order and with their content, no name that ends in
  \<^verbatim>\<open>.pyc\<close> exists in it, the \<^verbatim>\<open>scripts\<close> directory of the data directory is gone,
  and every path that neither leads to nor lies below one of the two directories is as
  it was.
\<close>

theorem scripts_relocation:
  assumes "lookup (root s) (dest @ [dist_data_name w, ''scripts'']) = Some (Dir es)"
    and "distinct (map fst es)"
  shows
    "((\<exists>s'. install_scripts w dest s = (Inr (), s')) \<longleftrightarrow>
        (\<exists>gs. lookup (root s) (dest @ [''EGG-INFO'']) = Some (Dir gs) \<and>
              map_of gs ''scripts'' = None) \<and>
        (\<forall>n x. (n, Dir x) \<in> set es \<longrightarrow> \<not> endswith n ''.pyc'')) \<and>
     (\<forall>s'. install_scripts w dest s = (Inr (), s') \<longrightarrow>
        lookup (root s) (dest @ [''EGG-INFO'', ''scripts'']) = None \<and>
        lookup (root s') (dest @ [''EGG-INFO'', ''scripts'']) =
          Some (Dir (filter (\<lambda>e. \<not> endswith (fst e) ''.pyc'') es)) \<and>
        (\<forall>n. endswith n ''.pyc'' \<longrightarrow>
           lookup (root s') (dest @ [''EGG-INFO'', ''scripts'', n]) = None) \<and>
        lookup (root s') (dest @ [dist_data_name w, ''scripts'']) = None \<and>
        (\<forall>q. \<not> prefix (dest @ [dist_data_name w, ''scripts'']) q \<and>
             \<not> prefix q (dest @ [dist_data_name w, ''scripts'']) \<and>
             \<not> prefix (dest @ [''EGG-INFO'', ''scripts'']) q \<and>
             \<not> prefix q (dest @ [''EGG-INFO'', ''scripts'']) \<longrightarrow>
             lookup (root s') q = lookup (root s) q))"
proof -
  note run = install_scripts_run [OF assms]
  have iff: "(\<exists>s'. install_scripts w dest s = (Inr (), s')) \<longleftrightarrow>
        (\<exists>gs. lookup (root s) (dest @ [''EGG-INFO'']) = Some (Dir gs) \<and>
              map_of gs ''scripts'' = None) \<and>
        (\<forall>n x. (n, Dir x) \<in> set es \<longrightarrow> \<not> endswith n ''.pyc'')"
    using run by (cases "install_scripts w dest s"; cases "fst (install_scripts w dest s)") auto
  have post: "lookup (root s) (dest @ [''EGG-INFO'', ''scripts'']) = None \<and>
        lookup (root s') (dest @ [''EGG-INFO'', ''scripts'']) =
          Some (Dir (filter (\<lambda>e. \<not> endswith (fst e) ''.pyc'') es)) \<and>
        (\<forall>n. endswith n ''.pyc'' \<longrightarrow>
           lookup (root s') (dest @ [''EGG-INFO'', ''scripts'', n]) = None) \<and>
        lookup (root s') (dest @ [dist_data_name w, ''scripts'']) = None \<and>
        (\<forall>q. \<not> prefix (dest @ [dist_data_name w, ''scripts'']) q \<and>
             \<not> prefix q (dest @ [dist_data_name w, ''scripts'']) \<and>
             \<not> prefix (dest @ [''EGG-INFO'', ''scripts'']) q \<and>
             \<not> prefix q (dest @ [''EGG-INFO'', ''scripts'']) \<longrightarrow>
             lookup (root s') q = lookup (root s) q)"
    if ok: "install_scripts w dest s = (Inr (), s')" for s'
  proof -
    from run ok obtain gs where
      P: "lookup (root s) (dest @ [''EGG-INFO'']) = Some (Dir gs)"
      and fresh: "map_of gs ''scripts'' = None"
      and E: "lookup (root s') (dest @ [''EGG-INFO'', ''scripts'']) =
          Some (Dir (filter (\<lambda>e. \<not> endswith (fst e) ''.pyc'') es))"
      and S: "lookup (root s') (dest @ [dist_data_name w, ''scripts'']) = None"
      and frame: "\<forall>q. \<not> prefix (dest @ [dist_data_name w, ''scripts'']) q \<and>
             \<not> prefix q (dest @ [dist_data_name w, ''scripts'']) \<and>
             \<not> prefix (dest @ [''EGG-INFO'', ''scripts'']) q \<and>
             \<not> prefix q (dest @ [''EGG-INFO'', ''scripts'']) \<longrightarrow>
             lookup (root s') q = lookup (root s) q"
      by auto
    have before: "lookup (root s) (dest @ [''EGG-INFO'', ''scripts'']) = None"
      using lookup_append [of "root s" "dest @ [''EGG-INFO'']" "[''scripts'']"] P fresh by simp
    have pyc: "lookup (root s') (dest @ [''EGG-INFO'', ''scripts'', n]) = None"
      if "endswith n ''.pyc''" for n
      using lookup_append [of "root s'" "dest @ [''EGG-INFO'', ''scripts'']" "[n]"] E that
      by (simp add: map_of_filter_fst [where Q = "\<lambda>n. \<not> endswith n ''.pyc''"])
    from before E pyc S frame show ?thesis by blast
  qed
  from iff post show ?thesis by blast
qed

theorem scripts_relocation_witness:
  "install_scripts foo_wheel [''egg'']
     (FS (Dir [(''egg'', Dir [(''EGG-INFO'', Dir [(''PKG-INFO'', File ''M'')]),
                 (''foo-1.0.data'',
                  Dir [(''scripts'', Dir [(''run'', File ''R''), (''run.pyc'', File ''C'')])])])])
         []) =
   (Inr (),
    FS (Dir [(''egg'', Dir [(''EGG-INFO'',
                  Dir [(''PKG-INFO'', File ''M''), (''scripts'', Dir [(''run'', File ''R'')])]),
                 (''foo-1.0.data'', Dir [])])])
       [Mkdir [''egg'', ''EGG-INFO'', ''scripts''],
        Rename [''egg'', ''foo-1.0.data'', ''scripts'', ''run'']
               [''egg'', ''EGG-INFO'', ''scripts'', ''run''],
        Unlink [''egg'', ''foo-1.0.data'', ''scripts'', ''run.pyc''],
        Rmdir [''egg'', ''foo-1.0.data'', ''scripts'']]) \<and>
   lookup (Dir [(''egg'', Dir [(''EGG-INFO'',
                  Dir [(''PKG-INFO'', File ''M''), (''scripts'', Dir [(''run'', File ''R'')])]),
                 (''foo-1.0.data'', Dir [])])])
     [''egg'', ''EGG-INFO'', ''scripts'', ''run.pyc''] = None"
proof -
  let ?s = "FS (Dir [(''egg'', Dir [(''EGG-INFO'', Dir [(''PKG-INFO'', File ''M'')]),
                 (''foo-1.0.data'',
                  Dir [(''scripts'', Dir [(''run'', File ''R''), (''run.pyc'', File ''C'')])])])])
         []"
  have h1: "lookup (root ?s) ([''egg''] @ [dist_data_name foo_wheel, ''scripts'']) =
      Some (Dir [(''run'', File ''R''), (''run.pyc'', File ''C'')])"
    by (simp add: dist_data_name_def foo_wheel_def)
  have h2: "distinct (map fst [(''run'', File ''R''), (''run.pyc'', File ''C'')])"
    by simp
  have run: "install_scripts foo_wheel [''egg''] ?s =
   (Inr (),
    FS (Dir [(''egg'', Dir [(''EGG-INFO'',
                  Dir [(''PKG-INFO'', File ''M''), (''scripts'', Dir [(''run'', File ''R'')])]),
                 (''foo-1.0.data'', Dir [])])])
       [Mkdir [''egg'', ''EGG-INFO'', ''scripts''],
        Rename [''egg'', ''foo-1.0.data'', ''scripts'', ''run'']
               [''egg'', ''EGG-INFO'', ''scripts'', ''run''],
        Unlink [''egg'', ''foo-1.0.data'', ''scripts'', ''run.pyc''],
        Rmdir [''egg'', ''foo-1.0.data'', ''scripts'']])"
    by (simp add: install_scripts_def dist_data_name_def os_path_exists_def sys_def
        os_mkdir_def os_rmdir_def os_unlink_def os_rename_def os_listdir_def in_dir_def
        on_entries_def mkdir_entry_def rmdir_entry_def unlink_entry_def endswith_def
        suffix_to_prefix foo_wheel_def)
  have pyc: "endswith ''run.pyc'' ''.pyc''"
    by (simp add: endswith_def suffix_to_prefix)
  from scripts_relocation [OF h1 h2]
  have "\<forall>s'. install_scripts foo_wheel [''egg''] ?s = (Inr (), s') \<longrightarrow>
          (\<forall>n. endswith n ''.pyc'' \<longrightarrow>
             lookup (root s') ([''egg''] @ [''EGG-INFO'', ''scripts'', n]) = None)"
    by blast
  with run pyc show ?thesis by simp
qed

subsection \<open>Validation and extraction\<close>

lemma sys_journal: "prefix (journal s) (journal (snd (sys c s)))"
  by (simp add: sys_def split: sum.splits)

lemma makedirs_rev_journal: "prefix (journal s) (journal (snd (makedirs_rev rp s)))"
proof (induction rp arbitrary: s)
  case Nil
  show ?case by (simp add: sys_journal)
next
  case (Cons c rp)
  show ?case
  proof (cases "rp \<noteq> [] \<and> \<not> os_path_exists (rev rp) s")
    case False
    then show ?thesis using sys_journal [of s "Mkdir (rev (c # rp))"] by auto
  next
    case True
    obtain r s' where m: "makedirs_rev rp s = (r, s')" by (cases "makedirs_rev rp s")
    have 1: "prefix (journal s) (journal s')" using Cons.IH [of s] m by simp
    have 2: "prefix (journal s') (journal (snd (sys (Mkdir (rev (c # rp))) s')))"
      by (rule sys_journal)
    from 1 2 have 3: "prefix (journal s) (journal (snd (sys (Mkdir (rev (c # rp))) s')))"
      by (rule prefix_order.trans)
    from True m 1 3 show ?thesis
      by (auto split: sum.splits error.splits errno.splits)
  qed
qed

lemma extract_member_journal:
  "prefix (journal s) (journal (snd (extract_member zf dest name s)))"
proof -
  let ?target = "dest @ member_path name"
  let ?pre = "if ?target \<noteq> [] \<and> \<not> os_path_exists (butlast ?target) s
              then os_makedirs (butlast ?target) s else (Inr (), s)"
  obtain r s1 where p: "?pre = (r, s1)" by (cases ?pre)
  have 1: "prefix (journal s) (journal s1)"
    using p makedirs_rev_journal [of s "rev (butlast ?target)"]
    by (auto simp: os_makedirs_def split: if_splits)
  have 2: "prefix (journal s1) (journal (snd (sys c s1)))" for c by (rule sys_journal)
  have 3: "prefix (journal s) (journal (snd (sys c s1)))" for c
    using 1 2 by (rule prefix_order.trans)
  show ?thesis
    unfolding extract_member_def Let_def p using 1 3
    by (auto split: sum.splits)
qed

lemma extract_members_journal:
  "prefix (journal s) (journal (snd (extract_members zf names dest s)))"
proof (induction names arbitrary: s)
  case Nil
  show ?case by simp
next
  case (Cons name names)
  obtain r s1 where e: "extract_member zf dest name s = (r, s1)"
    by (cases "extract_member zf dest name s")
  have 1: "prefix (journal s) (journal s1)"
    using extract_member_journal [of s zf dest name] e by simp
  have "prefix (journal s) (journal (snd (extract_members zf names dest s1)))"
    using 1 Cons.IH [of s1] by (rule prefix_order.trans)
  with e 1 show ?case by (auto split: sum.splits)
qed

lemma extractall_journal: "prefix (journal s) (journal (snd (extractall zf dest s)))"
  by (simp add: extractall_def extract_members_journal)

text \<open>
  C3, as amended. The destination directory is made only after the validation has
  succeeded. When the validation fails in any way (the metadata directory is not found,
  the \<^verbatim>\<open>WHEEL\<close> record is missing from it, the record has no format version, or the
  format version is rejected), the installation raises that error and the file system is
  as it was: nothing has been extracted and the destination directory has not been
  made. Whatever the outcome, the system calls the installation adds to the journal are
  none at all or start with the creation of the destination directory, and there are
  some only when the validation has succeeded.
\<close>

theorem install_validates_before_mkdir:
  "(get_dist_info (project_name w) (namelist zf) = Inl e \<longrightarrow>
      install_extract header w dest zf s = (Inl e, s)) \<and>
   (get_dist_info (project_name w) (namelist zf) = Inr dist_info \<and>
    zf_open zf (posixpath_join dist_info ''WHEEL'') = Inr wheel_metadata \<and>
    header wheel_metadata ''Wheel-Version'' = Some v \<and>
    check_wheel_version v = Inl e \<longrightarrow>
      install_extract header w dest zf s = (Inl e, s)) \<and>
   (\<exists>ops. journal (snd (install_extract header w dest zf s)) = journal s @ ops \<and>
          (ops = [] \<or> hd ops = Mkdir dest)) \<and>
   (install_validate header w zf = Inl e \<longrightarrow>
      install_extract header w dest zf s = (Inl e, s)) \<and>
   (get_dist_info (project_name w) (namelist zf) = Inr dist_info \<and>
    zf_open zf (posixpath_join dist_info ''WHEEL'') = Inl e \<longrightarrow>
      install_extract header w dest zf s = (Inl e, s)) \<and>
   (get_dist_info (project_name w) (namelist zf) = Inr dist_info \<and>
    zf_open zf (posixpath_join dist_info ''WHEEL'') = Inr wheel_metadata \<and>
    header wheel_metadata ''Wheel-Version'' = None \<longrightarrow>
      install_extract header w dest zf s = (Inl TypeError, s)) \<and>
   (snd (install_extract header w dest zf s) \<noteq> s \<longrightarrow>
      (\<exists>d. install_validate header w zf = Inr d) \<and>
      (\<exists>t. os_mkdir dest (root s) = Inr t))"
proof (intro conjI impI)
  assume "get_dist_info (project_name w) (namelist zf) = Inl e"
  then show "install_extract header w dest zf s = (Inl e, s)"
    by (simp add: install_extract_def install_validate_def)
next
  assume "get_dist_info (project_name w) (namelist zf) = Inr dist_info \<and>
    zf_open zf (posixpath_join dist_info ''WHEEL'') = Inr wheel_metadata \<and>
    header wheel_metadata ''Wheel-Version'' = Some v \<and>
    check_wheel_version v = Inl e"
  then show "install_extract header w dest zf s = (Inl e, s)"
    by (simp add: install_extract_def install_validate_def)
next
  show "\<exists>ops. journal (snd (install_extract header w dest zf s)) = journal s @ ops \<and>
          (ops = [] \<or> hd ops = Mkdir dest)"
  proof (cases "install_validate header w zf")
    case (Inl e)
    then show ?thesis by (simp add: install_extract_def)
  next
    case (Inr d)
    show ?thesis
    proof (cases "exec (Mkdir dest) (root s)")
      case (Inl e)
      with Inr show ?thesis by (simp add: install_extract_def sys_def)
    next
      case mk: (Inr t)
      let ?s1 = "FS t (journal s @ [Mkdir dest])"
      from extractall_journal [of ?s1 zf dest] obtain ops where
        ops: "journal (snd (extractall zf dest ?s1)) = (journal s @ [Mkdir dest]) @ ops"
        by (auto simp: prefix_def)
      have "journal (snd (install_extract header w dest zf s)) = journal s @ Mkdir dest # ops"
        using Inr mk ops by (auto simp: install_extract_def sys_def split: prod.splits sum.splits)
      then show ?thesis by simp
    qed
  qed
next
  assume "install_validate header w zf = Inl e"
  then show "install_extract header w dest zf s = (Inl e, s)"
    by (simp add: install_extract_def)
next
  assume "get_dist_info (project_name w) (namelist zf) = Inr dist_info \<and>
    zf_open zf (posixpath_join dist_info ''WHEEL'') = Inl e"
  then show "install_extract header w dest zf s = (Inl e, s)"
    by (simp add: install_extract_def install_validate_def)
next
  assume "get_dist_info (project_name w) (namelist zf) = Inr dist_info \<and>
    zf_open zf (posixpath_join dist_info ''WHEEL'') = Inr wheel_metadata \<and>
    header wheel_metadata ''Wheel-Version'' = None"
  then show "install_extract header w dest zf s = (Inl TypeError, s)"
    by (simp add: install_extract_def install_validate_def)
next
  assume changed: "snd (install_extract header w dest zf s) \<noteq> s"
  show "\<exists>d. install_validate header w zf = Inr d"
  proof (cases "install_validate header w zf")
    case (Inl e)
    with changed show ?thesis by (simp add: install_extract_def)
  next
    case (Inr d)
    then show ?thesis by simp
  qed
  show "\<exists>t. os_mkdir dest (root s) = Inr t"
  proof (cases "os_mkdir dest (root s)")
    case (Inl e)
    with changed show ?thesis
      by (simp add: install_extract_def sys_def split: sum.splits)
  next
    case (Inr t)
    then show ?thesis by simp
  qed
qed

theorem install_validates_before_mkdir_witness:
  "install_extract line_header foo_wheel [''egg'']
     [(''foo/__init__.py'', ''I''), (''foo-1.0.dist-info/WHEEL'', ''Wheel-Version: 3.0'')]
     (FS (Dir []) []) =
   (Inl (UnsupportedWheelVersion ''3.0''), FS (Dir []) []) \<and>
   install_extract line_header foo_wheel [''egg'']
     [(''foo/__init__.py'', ''I''), (''foo-1.0.dist-info/METADATA'', ''Name: foo'')]
     (FS (Dir []) []) =
   (Inl (KeyError ''foo-1.0.dist-info/WHEEL''), FS (Dir []) []) \<and>
   install_extract line_header foo_wheel [''egg'']
     [(''foo/__init__.py'', ''I''), (''foo-1.0.dist-info/WHEEL'', ''Generator: bdist_wheel'')]
     (FS (Dir []) []) =
   (Inl TypeError, FS (Dir []) []) \<and>
   journal (snd (install_extract line_header foo_wheel [''egg'']
     [(''foo/__init__.py'', ''I''), (''foo-1.0.dist-info/WHEEL'', ''Wheel-Version: 1.0'')]
     (FS (Dir []) []))) =
   [Mkdir [''egg''], Mkdir [''egg'', ''foo''], Write [''egg'', ''foo'', ''__init__.py''] ''I'',
    Mkdir [''egg'', ''foo-1.0.dist-info''],
    Write [''egg'', ''foo-1.0.dist-info'', ''WHEEL''] ''Wheel-Version: 1.0''] \<and>
   install_validate line_header foo_wheel
     [(''foo/__init__.py'', ''I''), (''foo-1.0.dist-info/WHEEL'', ''Wheel-Version: 1.0'')] =
   Inr ''foo-1.0.dist-info''"
proof -
  let ?bad = "[(''foo/__init__.py'', ''I''), (''foo-1.0.dist-info/WHEEL'', ''Wheel-Version: 3.0'')]"
  let ?norec = "[(''foo/__init__.py'', ''I''), (''foo-1.0.dist-info/METADATA'', ''Name: foo'')]"
  let ?nofield = "[(''foo/__init__.py'', ''I''), (''foo-1.0.dist-info/WHEEL'', ''Generator: bdist_wheel'')]"
  let ?good = "[(''foo/__init__.py'', ''I''), (''foo-1.0.dist-info/WHEEL'', ''Wheel-Version: 1.0'')]"
  note cand = namelist_def dirname_def dist_info_candidate_def endswith_def startswith_def
    suffix_to_prefix canonicalize_name_def is_sep_def lower_char_def foo_wheel_def
  note ver = check_wheel_version_def wheel_v1_def parse_version_def parse_pre_def
    parse_post_def parse_dev_def tagged_number_def is_digit_def nat_of_digits_def
    digit_val_def version_le_def version_less_def
  have d1: "get_dist_info (project_name foo_wheel) (namelist ?bad) = Inr ''foo-1.0.dist-info''"
    by (simp add: cand)
  have d2: "get_dist_info (project_name foo_wheel) (namelist ?norec) = Inr ''foo-1.0.dist-info''"
    by (simp add: cand)
  have d3: "get_dist_info (project_name foo_wheel) (namelist ?nofield) = Inr ''foo-1.0.dist-info''"
    by (simp add: cand)
  have m1: "zf_open ?bad (posixpath_join ''foo-1.0.dist-info'' ''WHEEL'') = Inr ''Wheel-Version: 3.0''"
    by (simp add: zf_open_def posixpath_join_def endswith_def startswith_def suffix_to_prefix)
  have m2: "zf_open ?norec (posixpath_join ''foo-1.0.dist-info'' ''WHEEL'') =
      Inl (KeyError ''foo-1.0.dist-info/WHEEL'')"
    by (simp add: zf_open_def posixpath_join_def endswith_def startswith_def suffix_to_prefix)
  have m3: "zf_open ?nofield (posixpath_join ''foo-1.0.dist-info'' ''WHEEL'') =
      Inr ''Generator: bdist_wheel''"
    by (simp add: zf_open_def posixpath_join_def endswith_def startswith_def suffix_to_prefix)
  have h1: "line_header ''Wheel-Version: 3.0'' ''Wheel-Version'' = Some ''3.0''"
    by (simp add: line_header_def)
  have h3: "line_header ''Generator: bdist_wheel'' ''Wheel-Version'' = None"
    by (simp add: line_header_def)
  have c1: "check_wheel_version ''3.0'' = Inl (UnsupportedWheelVersion ''3.0'')"
    by (simp add: ver)
  have 1: "install_extract line_header foo_wheel [''egg''] ?bad (FS (Dir []) []) =
      (Inl (UnsupportedWheelVersion ''3.0''), FS (Dir []) [])"
    using install_validates_before_mkdir [where w = foo_wheel and zf = ?bad
        and e = "UnsupportedWheelVersion ''3.0''" and header = line_header
        and dest = "[''egg'']" and s = "FS (Dir []) []" and dist_info = "''foo-1.0.dist-info''"
        and wheel_metadata = "''Wheel-Version: 3.0''" and v = "''3.0''"]
      d1 m1 h1 c1 by blast
  have 2: "install_extract line_header foo_wheel [''egg''] ?norec (FS (Dir []) []) =
      (Inl (KeyError ''foo-1.0.dist-info/WHEEL''), FS (Dir []) [])"
    using install_validates_before_mkdir [where w = foo_wheel and zf = ?norec
        and e = "KeyError ''foo-1.0.dist-info/WHEEL''" and header = line_header
        and dest = "[''egg'']" and s = "FS (Dir []) []" and dist_info = "''foo-1.0.dist-info''"]
      d2 m2 by blast
  have 3: "install_extract line_header foo_wheel [''egg''] ?nofield (FS (Dir []) []) =
      (Inl TypeError, FS (Dir []) [])"
    using install_validates_before_mkdir [where w = foo_wheel and zf = ?nofield
        and header = line_header
        and dest = "[''egg'']" and s = "FS (Dir []) []" and dist_info = "''foo-1.0.dist-info''"
        and wheel_metadata = "''Generator: bdist_wheel''"]
      d3 m3 h3 by blast
  have 4: "journal (snd (install_extract line_header foo_wheel [''egg''] ?good
     (FS (Dir []) []))) =
   [Mkdir [''egg''], Mkdir [''egg'', ''foo''], Write [''egg'', ''foo'', ''__init__.py''] ''I'',
    Mkdir [''egg'', ''foo-1.0.dist-info''],
    Write [''egg'', ''foo-1.0.dist-info'', ''WHEEL''] ''Wheel-Version: 1.0'']"
    by (simp add: install_extract_def install_validate_def cand ver zf_open_def
        posixpath_join_def extractall_def extract_member_def member_path_def
        os_path_exists_def os_path_isdir_def os_makedirs_def sys_def os_mkdir_def
        os_write_def in_dir_def on_entries_def mkdir_entry_def write_entry_def Let_def
        line_header_def)
  have "snd (install_extract line_header foo_wheel [''egg''] ?good (FS (Dir []) [])) \<noteq>
      FS (Dir []) []"
    using 4 by (cases "snd (install_extract line_header foo_wheel [''egg''] ?good (FS (Dir []) []))") auto
  with install_validates_before_mkdir [where w = foo_wheel and zf = ?good
        and header = line_header and dest = "[''egg'']" and s = "FS (Dir []) []"]
  obtain d where "install_validate line_header foo_wheel ?good = Inr d" by blast
  moreover have "get_dist_info (project_name foo_wheel) (namelist ?good) = Inr ''foo-1.0.dist-info''"
    by (simp add: cand)
  ultimately have 5: "install_validate line_header foo_wheel ?good = Inr ''foo-1.0.dist-info''"
    by (auto simp: install_validate_def split: sum.splits option.splits)
  from 1 2 3 4 5 show ?thesis by simp
qed

text \<open>
  C3, as stated, fails: for an archive without a metadata directory, and for one whose
  format version is \<^verbatim>\<open>2.0\<close>, the installation raises and the destination directory
  \<^verbatim>\<open>egg\<close> does not exist afterwards.
\<close>

theorem install_failure_creates_no_directory:
  "install_extract line_header foo_wheel [''egg''] [(''foo/__init__.py'', ''I'')]
     (FS (Dir []) []) =
   (Inl DistInfoNotFound, FS (Dir []) []) \<and>
   install_extract line_header foo_wheel [''egg'']
     [(''foo/__init__.py'', ''I''), (''foo-1.0.dist-info/WHEEL'', ''Wheel-Version: 2.0'')]
     (FS (Dir []) []) =
   (Inl (UnsupportedWheelVersion ''2.0''), FS (Dir []) []) \<and>
   \<not> os_path_exists [''egg''] (FS (Dir []) [])"
  by (simp add: install_extract_def install_validate_def namelist_def dirname_def
        dist_info_candidate_def endswith_def startswith_def suffix_to_prefix
        canonicalize_name_def is_sep_def lower_char_def zf_open_def posixpath_join_def
        check_wheel_version_def wheel_v1_def parse_version_def parse_pre_def
        parse_post_def parse_dev_def tagged_number_def is_digit_def nat_of_digits_def
        digit_val_def version_le_def version_less_def os_path_exists_def
        foo_wheel_def line_header_def)

subsection \<open>\<^verbatim>\<open>unpack\<close>\<close>

lemmas fs_eval =
  unpack_def unpack_move_def unpack_cleanup_def os_renames_def os_removedirs_def
  os_makedirs_def os_path_exists_def sys_def os_mkdir_def os_rmdir_def os_rename_def
  in_dir_def on_entries_def mkdir_entry_def rmdir_entry_def Let_def

text \<open>
  C10. When the source holds an empty directory that the destination has too, the first
  loop has nothing to move, and the cleanup loop, which visits the source before the
  directory in it, fails to remove the source: \<^verbatim>\<open>unpack\<close> raises
  \<^verbatim>\<open>OSError\<close> (directory not empty) and the source is still there. The tree has the
  shape the extraction leaves for an archive with the members \<^verbatim>\<open>pkg/__init__.py\<close> and
  \<^verbatim>\<open>foo-1.0.data/purelib/pkg/\<close>. This holds for every depth bound that lets the walk
  finish.
\<close>

theorem unpack_leaves_source_directory:
  "unpack (Suc (Suc n)) [''egg'', ''foo-1.0.data'', ''purelib''] [''egg'']
     (FS (Dir [(''egg'',
            Dir [(''pkg'', Dir [(''__init__.py'', File ''I'')]),
                 (''foo-1.0.data'', Dir [(''purelib'', Dir [(''pkg'', Dir [])])])])]) []) =
   Some (Inl (OSError ENOTEMPTY),
     FS (Dir [(''egg'',
            Dir [(''pkg'', Dir [(''__init__.py'', File ''I'')]),
                 (''foo-1.0.data'', Dir [(''purelib'', Dir [(''pkg'', Dir [])])])])]) []) \<and>
   os_path_exists [''egg'', ''foo-1.0.data'', ''purelib'']
     (FS (Dir [(''egg'',
            Dir [(''pkg'', Dir [(''__init__.py'', File ''I'')]),
                 (''foo-1.0.data'', Dir [(''purelib'', Dir [(''pkg'', Dir [])])])])]) [])"
  by (simp add: fs_eval)

text \<open>
  A run of \<^verbatim>\<open>unpack\<close> as the installation makes it: files are merged into a directory
  the destination has, a directory it does not have is renamed as a whole, and the
  emptied directories above the moved entries are pruned by \<^verbatim>\<open>os.renames\<close>.
\<close>

lemma unpack_merges_example:
  "unpack 3 [''egg'', ''foo-1.0.data'', ''purelib''] [''egg'']
     (FS (Dir [(''egg'',
            Dir [(''foo-1.0.data'',
                  Dir [(''purelib'',
                        Dir [(''pkg'', Dir [(''a.py'', File ''A''),
                                            (''sub'', Dir [(''b.py'', File ''B'')])]),
                             (''top.py'', File ''T'')])]),
                 (''pkg'', Dir [(''__init__.py'', File ''I'')])])]) []) =
   Some (Inr (),
     FS (Dir [(''egg'',
            Dir [(''pkg'', Dir [(''__init__.py'', File ''I''), (''a.py'', File ''A''),
                                (''sub'', Dir [(''b.py'', File ''B'')])]),
                 (''top.py'', File ''T'')])])
        [Rename [''egg'', ''foo-1.0.data'', ''purelib'', ''top.py''] [''egg'', ''top.py''],
         Rename [''egg'', ''foo-1.0.data'', ''purelib'', ''pkg'', ''a.py'']
                [''egg'', ''pkg'', ''a.py''],
         Rename [''egg'', ''foo-1.0.data'', ''purelib'', ''pkg'', ''sub'']
                [''egg'', ''pkg'', ''sub''],
         Rmdir [''egg'', ''foo-1.0.data'', ''purelib'', ''pkg''],
         Rmdir [''egg'', ''foo-1.0.data'', ''purelib''],
         Rmdir [''egg'', ''foo-1.0.data'']])"
  by (simp add: fs_eval numeral_3_eq_3)

end
